theory Spec2Isabelle
  imports Main "HOL-Library.Word" "HOL-Library.Signed_Division"
begin

section \<open>V4L2 capture and display: data model\<close>

text \<open>
  The development follows \<^verbatim>\<open>opengles_capture/capture.c\<close> and
  \<^verbatim>\<open>opengles_capture/include/capture.h\<close>. C \<^verbatim>\<open>int\<close> values are modelled as
  \<^typ>\<open>int\<close>: the code only compares them, assigns constants, and computes
  \<^verbatim>\<open>(test_state + 1) % 4\<close>, which is written with the truncating remainder of C
  (\<open>smod\<close>). Pointers are 64-bit words. Logging macros have no effect on the state and are
  left out.
\<close>

type_synonym addr = "64 word"

subsection \<open>Constants of the kernel headers\<close>

text \<open>
  These come from \<^verbatim>\<open>linux/videodev2.h\<close>, \<^verbatim>\<open>linux/v4l2-controls.h\<close> and
  \<^verbatim>\<open>sys/mman.h\<close>, which the program includes.
\<close>

definition VIDEO_MAX_FRAME :: nat where "VIDEO_MAX_FRAME = 32"
definition VIDEO_MAX_PLANES :: nat where "VIDEO_MAX_PLANES = 8"
definition MAP_FAILED :: addr where "MAP_FAILED = - 1"
definition V4L2_BUF_TYPE_VIDEO_CAPTURE_MPLANE :: nat where "V4L2_BUF_TYPE_VIDEO_CAPTURE_MPLANE = 9"
definition V4L2_MEMORY_MMAP :: nat where "V4L2_MEMORY_MMAP = 1"
definition V4L2_CAP_VIDEO_CAPTURE_MPLANE :: "32 word" where "V4L2_CAP_VIDEO_CAPTURE_MPLANE = 0x00001000"
definition V4L2_CAP_STREAMING :: "32 word" where "V4L2_CAP_STREAMING = 0x04000000"
definition V4L2_CID_FOCUS_AUTO :: "32 word" where "V4L2_CID_FOCUS_AUTO = 0x009a090c"
definition V4L2_CID_3A_LOCK :: "32 word" where "V4L2_CID_3A_LOCK = 0x009a091b"
definition V4L2_CID_AUTO_FOCUS_START :: "32 word" where "V4L2_CID_AUTO_FOCUS_START = 0x009a091c"
definition V4L2_CID_TEST_PATTERN :: "32 word" where "V4L2_CID_TEST_PATTERN = 0x009f0903"
definition V4L2_LOCK_FOCUS :: int where "V4L2_LOCK_FOCUS = 4"
definition SIGINT :: int where "SIGINT = 2"

subsection \<open>capture.h\<close>

text \<open>The anonymous enum of focus states; the field that holds one is a C \<^verbatim>\<open>int\<close>.\<close>

definition IDLE_FOCUS :: int where "IDLE_FOCUS = 0"
definition AUTO_FOCUS_ENABLED :: int where "AUTO_FOCUS_ENABLED = 1"
definition SINGLE_FOCUS_START :: int where "SINGLE_FOCUS_START = 2"
definition FOCUS_PAUSE :: int where "FOCUS_PAUSE = 3"

text \<open>
  \<^verbatim>\<open>struct video_buf_map\<close>: the per-plane arrays have \<open>VIDEO_MAX_PLANES\<close> entries. Of
  the embedded \<^verbatim>\<open>v4l2buf\<close> only the index is kept, which is what the driver reads when
  the buffer is queued.
\<close>

record video_buf_map =
  length_v :: "nat list"
  addr :: "addr list"
  dma_buf_fd :: "int list"
  v4l2buf_index :: nat

record application_state =
  app_focus_state :: int
  app_test_state :: int

text \<open>\<^verbatim>\<open>struct capture_context\<close>: \<open>buffers\<close> has \<open>VIDEO_MAX_FRAME\<close> entries.\<close>

record capture_context =
  buffers :: "video_buf_map list"
  app :: application_state
  num_buf :: int
  num_planes :: int
  buf_type :: nat
  memory :: nat
  v4l2_fd :: int
  v4l2_subdev_fd :: int

text \<open>\<^verbatim>\<open>struct v4l2_control\<close> and the plane geometry reported by \<^verbatim>\<open>VIDIOC_QUERYBUF\<close>.\<close>

record v4l2_control =
  ctrl_id :: "32 word"
  ctrl_value :: int

record v4l2_plane =
  plane_length :: nat
  mem_offset :: nat

subsection \<open>System calls, the device and the program state\<close>

text \<open>
  Every call that leaves the process is recorded, in order, with what it was given and what
  it returned. A \<^verbatim>\<open>struct v4l2_control\<close> that was never assigned is \<open>None\<close>: its
  contents are indeterminate. \<open>VIDIOC_DQBUF\<close> carries the index the driver filled in,
  \<open>VIDIOC_REQBUFS\<close> the requested count (\<^verbatim>\<open>__u32\<close>), \<open>VIDIOC_QUERYBUF\<close> the
  \<^verbatim>\<open>index\<close> and \<^verbatim>\<open>length\<close> fields of the buffer passed in.
\<close>

datatype request =
    VIDIOC_QUERYCAP
  | VIDIOC_S_FMT
  | VIDIOC_REQBUFS "32 word"
  | VIDIOC_QUERYBUF nat int
  | VIDIOC_EXPBUF nat nat
  | VIDIOC_QBUF nat
  | VIDIOC_DQBUF nat
  | VIDIOC_STREAMON
  | VIDIOC_STREAMOFF
  | VIDIOC_S_CTRL "v4l2_control option"

datatype event =
    Open string int
  | Close int
  | Mmap nat nat addr
  | Munmap addr nat
  | Ioctl int request int
  | Display_setup "addr list" int
  | Render "addr list" int
  | Sigaction int

text \<open>
  The kernel and the renderer are parameters: a \<open>device\<close> gives the result of every call
  as a function of its arguments, together with \<^verbatim>\<open>errno\<close> where the code reads it
  afterwards.
\<close>

record device =
  dev_open :: "string \<Rightarrow> int"
  dev_querycap :: "int \<times> 32 word"
  dev_s_fmt :: "int \<times> int"
  dev_reqbufs :: "32 word \<Rightarrow> int \<times> 32 word \<times> int"
  dev_querybuf :: "nat \<Rightarrow> int \<Rightarrow> int \<times> (nat \<Rightarrow> v4l2_plane)"
  dev_mmap :: "nat \<Rightarrow> nat \<Rightarrow> addr \<times> int"
  dev_expbuf :: "nat \<Rightarrow> nat \<Rightarrow> int \<times> int \<times> int"
  dev_qbuf :: "nat \<Rightarrow> int"
  dev_streamon :: int
  dev_streamoff :: int
  dev_s_ctrl :: "v4l2_control option \<Rightarrow> int"
  dev_display_setup :: int

text \<open>
  The fields of \<^verbatim>\<open>struct options\<close> that the capture code reads.
\<close>

record options =
  buffer_count :: int
  dma_export :: int
  dev_name :: string
  subdev_name :: string

text \<open>
  The globals of the program (\<^verbatim>\<open>signal_quit\<close>) and the calls made so far.
\<close>

record world =
  signal_quit :: int
  trace :: "event list"

definition emit :: "event \<Rightarrow> world \<Rightarrow> world" where
  "emit e w = w\<lparr>trace := trace w @ [e]\<rparr>"

definition ret_of :: "int \<times> capture_context \<times> world \<Rightarrow> int" where
  "ret_of r = fst r"

definition cap_of :: "int \<times> capture_context \<times> world \<Rightarrow> capture_context" where
  "cap_of r = fst (snd r)"

definition world_of :: "int \<times> capture_context \<times> world \<Rightarrow> world" where
  "world_of r = snd (snd r)"

section \<open>Device control: test pattern and focus\<close>

definition set_test_state :: "int \<Rightarrow> capture_context \<Rightarrow> capture_context" where
  "set_test_state v cap = cap\<lparr>app := (app cap)\<lparr>app_test_state := v\<rparr>\<rparr>"

definition set_focus_state :: "int \<Rightarrow> capture_context \<Rightarrow> capture_context" where
  "set_focus_state v cap = cap\<lparr>app := (app cap)\<lparr>app_focus_state := v\<rparr>\<rparr>"

text \<open>
  \<^verbatim>\<open>test_pattern\<close>: the state is stored first, then copied into the control and sent.
\<close>

definition test_pattern :: "device \<Rightarrow> capture_context \<Rightarrow> int \<Rightarrow> world \<Rightarrow> int \<times> capture_context \<times> world" where
  "test_pattern dev cap state w =
     (let cap1 =
            (if state \<noteq> 0 then
               (let cap' = set_test_state ((app_test_state (app cap) + 1) smod 4) cap
                in if app_test_state (app cap') = 0 then set_test_state 1 cap' else cap')
             else set_test_state 0 cap);
          ctrl = Some \<lparr>ctrl_id = V4L2_CID_TEST_PATTERN, ctrl_value = app_test_state (app cap1)\<rparr>;
          ret = dev_s_ctrl dev ctrl
      in (ret, cap1, emit (Ioctl (v4l2_subdev_fd cap1) (VIDIOC_S_CTRL ctrl) ret) w))"

text \<open>
  The \<^verbatim>\<open>switch\<close> of \<^verbatim>\<open>focus_state\<close>: the new context and the local \<^verbatim>\<open>ctrl\<close> as it
  stands when the switch is left. \<^verbatim>\<open>ctrl\<close> is declared without an initialiser, so it is
  \<open>None\<close> on every path that assigns nothing to it.
\<close>

definition focus_switch :: "capture_context \<Rightarrow> int \<Rightarrow> capture_context \<times> v4l2_control option" where
  "focus_switch cap new_state =
     (if app_focus_state (app cap) = IDLE_FOCUS then
        (if new_state = AUTO_FOCUS_ENABLED then
           (set_focus_state AUTO_FOCUS_ENABLED cap, Some \<lparr>ctrl_id = V4L2_CID_FOCUS_AUTO, ctrl_value = 1\<rparr>)
         else if new_state = SINGLE_FOCUS_START then
           (set_focus_state SINGLE_FOCUS_START cap, Some \<lparr>ctrl_id = V4L2_CID_AUTO_FOCUS_START, ctrl_value = 1\<rparr>)
         else (cap, None))
      else if app_focus_state (app cap) = AUTO_FOCUS_ENABLED then
        (if new_state = AUTO_FOCUS_ENABLED then
           (set_focus_state IDLE_FOCUS cap, Some \<lparr>ctrl_id = V4L2_CID_FOCUS_AUTO, ctrl_value = 0\<rparr>)
         else if new_state = FOCUS_PAUSE then
           (set_focus_state FOCUS_PAUSE cap, Some \<lparr>ctrl_id = V4L2_CID_3A_LOCK, ctrl_value = V4L2_LOCK_FOCUS\<rparr>)
         else if new_state = SINGLE_FOCUS_START then
           (set_focus_state SINGLE_FOCUS_START cap, Some \<lparr>ctrl_id = V4L2_CID_AUTO_FOCUS_START, ctrl_value = 1\<rparr>)
         else (cap, None))
      else if app_focus_state (app cap) = SINGLE_FOCUS_START then
        (if new_state = SINGLE_FOCUS_START then
           (set_focus_state SINGLE_FOCUS_START cap, Some \<lparr>ctrl_id = V4L2_CID_AUTO_FOCUS_START, ctrl_value = 1\<rparr>)
         else if new_state = FOCUS_PAUSE then
           (set_focus_state FOCUS_PAUSE cap, Some \<lparr>ctrl_id = V4L2_CID_3A_LOCK, ctrl_value = V4L2_LOCK_FOCUS\<rparr>)
         else if new_state = AUTO_FOCUS_ENABLED then
           (set_focus_state AUTO_FOCUS_ENABLED cap, Some \<lparr>ctrl_id = V4L2_CID_FOCUS_AUTO, ctrl_value = 1\<rparr>)
         else (cap, None))
      else if app_focus_state (app cap) = FOCUS_PAUSE then
        (if new_state = AUTO_FOCUS_ENABLED then
           (set_focus_state AUTO_FOCUS_ENABLED cap, Some \<lparr>ctrl_id = V4L2_CID_FOCUS_AUTO, ctrl_value = 1\<rparr>)
         else if new_state = SINGLE_FOCUS_START then
           (set_focus_state SINGLE_FOCUS_START cap, Some \<lparr>ctrl_id = V4L2_CID_AUTO_FOCUS_START, ctrl_value = 1\<rparr>)
         else (cap, None))
      else (set_focus_state IDLE_FOCUS cap, None))"

text \<open>
  \<^verbatim>\<open>focus_state\<close>: after the switch the \<^verbatim>\<open>VIDIOC_S_CTRL\<close> request is made on every
  path, with whatever \<^verbatim>\<open>ctrl\<close> holds.
\<close>

definition focus_state :: "device \<Rightarrow> capture_context \<Rightarrow> int \<Rightarrow> world \<Rightarrow> int \<times> capture_context \<times> world" where
  "focus_state dev cap new_state w =
     (let (cap1, ctrl) = focus_switch cap new_state;
          ret = dev_s_ctrl dev ctrl
      in (ret, cap1, emit (Ioctl (v4l2_subdev_fd cap1) (VIDIOC_S_CTRL ctrl) ret) w))"

text \<open>
  \<^verbatim>\<open>do_key_event\<close>: \<open>keys\<close> is the caller's character buffer, \<open>num_keys\<close> the number of
  valid entries. The context is reached through \<^verbatim>\<open>disp->callbacks.private_context\<close>;
  here it is passed directly. The results of the two control functions are discarded.
\<close>

definition do_key_event :: "device \<Rightarrow> string \<Rightarrow> int \<Rightarrow> capture_context \<Rightarrow> world \<Rightarrow> capture_context \<times> world" where
  "do_key_event dev keys num_keys cap w =
     (if num_keys = 1 then
        (let k = keys ! 0 in
         if k = CHR ''h'' then (cap, w)
         else if k = CHR ''a'' then snd (focus_state dev cap AUTO_FOCUS_ENABLED w)
         else if k = CHR ''f'' then snd (focus_state dev cap SINGLE_FOCUS_START w)
         else if k = CHR ''p'' then snd (focus_state dev cap FOCUS_PAUSE w)
         else if k = CHR ''t'' then snd (test_pattern dev cap 1 w)
         else if k = CHR ''l'' then snd (test_pattern dev cap 0 w)
         else (cap, w))
      else (cap, w))"

text \<open>A sequence of \<^verbatim>\<open>test_pattern\<close> calls, each on the context the previous one left.\<close>

fun test_pattern_seq :: "device \<Rightarrow> int list \<Rightarrow> capture_context \<Rightarrow> world \<Rightarrow> capture_context \<times> world" where
  "test_pattern_seq dev [] cap w = (cap, w)"
| "test_pattern_seq dev (s # ss) cap w =
     (case test_pattern dev cap s w of (ret, cap', w') \<Rightarrow> test_pattern_seq dev ss cap' w')"

section \<open>Buffer pool\<close>

text \<open>
  \<^verbatim>\<open>cap->buffers[i].length[p]\<close>, \<^verbatim>\<open>cap->buffers[i].addr[p]\<close> and
  \<^verbatim>\<open>cap->buffers[i].dma_buf_fd[p]\<close>, read and written. The arrays are lists of the
  declared sizes (\<open>wf_cap\<close>); an index beyond them is outside what C defines, and the
  properties below are stated for counts within the sizes.
\<close>

definition buf_length :: "capture_context \<Rightarrow> nat \<Rightarrow> nat \<Rightarrow> nat" where
  "buf_length cap i p = length_v (buffers cap ! i) ! p"

definition buf_addr :: "capture_context \<Rightarrow> nat \<Rightarrow> nat \<Rightarrow> addr" where
  "buf_addr cap i p = addr (buffers cap ! i) ! p"

definition buf_dma_fd :: "capture_context \<Rightarrow> nat \<Rightarrow> nat \<Rightarrow> int" where
  "buf_dma_fd cap i p = dma_buf_fd (buffers cap ! i) ! p"

definition wf_buf :: "video_buf_map \<Rightarrow> bool" where
  "wf_buf b \<longleftrightarrow> length (length_v b) = VIDEO_MAX_PLANES \<and> length (addr b) = VIDEO_MAX_PLANES \<and>
     length (dma_buf_fd b) = VIDEO_MAX_PLANES"

definition wf_cap :: "capture_context \<Rightarrow> bool" where
  "wf_cap cap \<longleftrightarrow> length (buffers cap) = VIDEO_MAX_FRAME \<and> list_all wf_buf (buffers cap)"

definition set_length_v :: "nat \<Rightarrow> nat \<Rightarrow> nat \<Rightarrow> capture_context \<Rightarrow> capture_context" where
  "set_length_v i p v cap =
     cap\<lparr>buffers := (buffers cap)[i := (buffers cap ! i)\<lparr>length_v := (length_v (buffers cap ! i))[p := v]\<rparr>]\<rparr>"

definition set_addr :: "nat \<Rightarrow> nat \<Rightarrow> addr \<Rightarrow> capture_context \<Rightarrow> capture_context" where
  "set_addr i p v cap =
     cap\<lparr>buffers := (buffers cap)[i := (buffers cap ! i)\<lparr>addr := (addr (buffers cap ! i))[p := v]\<rparr>]\<rparr>"

definition set_dma_buf_fd :: "nat \<Rightarrow> nat \<Rightarrow> int \<Rightarrow> capture_context \<Rightarrow> capture_context" where
  "set_dma_buf_fd i p v cap =
     cap\<lparr>buffers := (buffers cap)[i := (buffers cap ! i)\<lparr>dma_buf_fd := (dma_buf_fd (buffers cap ! i))[p := v]\<rparr>]\<rparr>"

definition set_v4l2buf_index :: "nat \<Rightarrow> nat \<Rightarrow> capture_context \<Rightarrow> capture_context" where
  "set_v4l2buf_index i v cap =
     cap\<lparr>buffers := (buffers cap)[i := (buffers cap ! i)\<lparr>v4l2buf_index := v\<rparr>]\<rparr>"

text \<open>
  \<^verbatim>\<open>unmap_buffers\<close>, one plane of one buffer: the two guarded steps of the inner loop
  body. \<^verbatim>\<open>cap->buffers\<close> is an array member and never null, so that part of each guard
  is always true. The descriptor is set to \<open>-1\<close> after \<^verbatim>\<open>close\<close>; the address is left
  as it is after \<^verbatim>\<open>munmap\<close>, whose result is overwritten before it is read.
\<close>

definition unmap_plane :: "nat \<Rightarrow> nat \<Rightarrow> capture_context \<times> world \<Rightarrow> capture_context \<times> world" where
  "unmap_plane i p s =
     (let (cap, w) = s;
          (cap1, w1) =
            (if buf_dma_fd cap i p \<ge> 0
             then (set_dma_buf_fd i p (- 1) cap, emit (Close (buf_dma_fd cap i p)) w)
             else (cap, w));
          w2 =
            (if buf_addr cap1 i p \<noteq> 0 \<and> buf_addr cap1 i p \<noteq> MAP_FAILED
             then emit (Munmap (buf_addr cap1 i p) (buf_length cap1 i p)) w1
             else w1)
      in (cap1, w2))"

definition unmap_buffers :: "device \<Rightarrow> capture_context \<Rightarrow> world \<Rightarrow> int \<times> capture_context \<times> world" where
  "unmap_buffers dev cap w =
     (let (cap1, w1) =
            fold (\<lambda>i s. fold (\<lambda>p. unmap_plane i p) [0..<nat (num_planes (fst s))] s)
              [0..<nat (num_buf cap)] (cap, w);
          (ret, granted, e) = dev_reqbufs dev 0
      in (ret, cap1, emit (Ioctl (v4l2_fd cap1) (VIDIOC_REQBUFS 0) ret) w1))"

text \<open>
  \<^verbatim>\<open>map_buffers\<close>. Each loop level is a function of its own; \<open>Some r\<close> is a
  \<^verbatim>\<open>return r\<close> from inside the loops, which leaves the context as changed so far.
\<close>

definition map_plane ::
  "device \<Rightarrow> bool \<Rightarrow> nat \<Rightarrow> (nat \<Rightarrow> v4l2_plane) \<Rightarrow> nat \<Rightarrow> capture_context \<Rightarrow> world \<Rightarrow>
     int option \<times> capture_context \<times> world" where
  "map_plane dev dma i planes p cap w =
     (let cap1 = set_length_v i p (plane_length (planes p)) cap;
          (a, e) = dev_mmap dev (plane_length (planes p)) (mem_offset (planes p));
          cap2 = set_addr i p a cap1;
          w1 = emit (Mmap (plane_length (planes p)) (mem_offset (planes p)) a) w
      in if a = MAP_FAILED then (Some (- e), cap2, w1)
         else if dma then
           (let (ret, fd, e') = dev_expbuf dev i p;
                w2 = emit (Ioctl (v4l2_fd cap2) (VIDIOC_EXPBUF i p) ret) w1
            in if ret < 0 then (Some (- e'), cap2, w2)
               else (None, set_dma_buf_fd i p fd cap2, w2))
         else (None, cap2, w1))"

fun map_planes ::
  "device \<Rightarrow> bool \<Rightarrow> nat \<Rightarrow> (nat \<Rightarrow> v4l2_plane) \<Rightarrow> nat list \<Rightarrow> capture_context \<Rightarrow> world \<Rightarrow>
     int option \<times> capture_context \<times> world" where
  "map_planes dev dma i planes [] cap w = (None, cap, w)"
| "map_planes dev dma i planes (p # ps) cap w =
     (case map_plane dev dma i planes p cap w of
        (Some r, cap', w') \<Rightarrow> (Some r, cap', w')
      | (None, cap', w') \<Rightarrow> map_planes dev dma i planes ps cap' w')"

definition map_buffer ::
  "device \<Rightarrow> bool \<Rightarrow> nat \<Rightarrow> capture_context \<Rightarrow> world \<Rightarrow> int option \<times> capture_context \<times> world" where
  "map_buffer dev dma i cap w =
     (let cap1 = set_v4l2buf_index i i cap;
          (ret, planes) = dev_querybuf dev i (num_buf cap1);
          w1 = emit (Ioctl (v4l2_fd cap1) (VIDIOC_QUERYBUF i (num_buf cap1)) ret) w
      in if ret < 0 then (Some ret, cap1, w1)
         else map_planes dev dma i planes [0..<nat (num_planes cap1)] cap1 w1)"

fun map_buffers_loop ::
  "device \<Rightarrow> bool \<Rightarrow> nat list \<Rightarrow> capture_context \<Rightarrow> world \<Rightarrow> int option \<times> capture_context \<times> world" where
  "map_buffers_loop dev dma [] cap w = (None, cap, w)"
| "map_buffers_loop dev dma (i # is) cap w =
     (case map_buffer dev dma i cap w of
        (Some r, cap', w') \<Rightarrow> (Some r, cap', w')
      | (None, cap', w') \<Rightarrow> map_buffers_loop dev dma is cap' w')"

definition map_buffers :: "device \<Rightarrow> capture_context \<Rightarrow> bool \<Rightarrow> world \<Rightarrow> int \<times> capture_context \<times> world" where
  "map_buffers dev cap dma w =
     (case map_buffers_loop dev dma [0..<nat (num_buf cap)] cap w of
        (Some r, cap', w') \<Rightarrow> (r, cap', w')
      | (None, cap', w') \<Rightarrow> (0, cap', w'))"

text \<open>\<^verbatim>\<open>queue_buffers\<close>: \<^verbatim>\<open>break\<close> on the first negative result; the last result is returned.\<close>

fun queue_buffers_loop ::
  "device \<Rightarrow> int \<Rightarrow> video_buf_map list \<Rightarrow> nat list \<Rightarrow> int \<Rightarrow> world \<Rightarrow> int \<times> world" where
  "queue_buffers_loop dev fd bufs [] ret w = (ret, w)"
| "queue_buffers_loop dev fd bufs (i # is) ret w =
     (let ret' = dev_qbuf dev (v4l2buf_index (bufs ! i));
          w' = emit (Ioctl fd (VIDIOC_QBUF (v4l2buf_index (bufs ! i))) ret') w
      in if ret' < 0 then (ret', w') else queue_buffers_loop dev fd bufs is ret' w')"

definition queue_buffers :: "device \<Rightarrow> int \<Rightarrow> int \<Rightarrow> video_buf_map list \<Rightarrow> world \<Rightarrow> int \<times> world" where
  "queue_buffers dev fd count bufs w = queue_buffers_loop dev fd bufs [0..<nat count] 0 w"

definition start_stream :: "device \<Rightarrow> int \<Rightarrow> world \<Rightarrow> int \<times> world" where
  "start_stream dev fd w = (dev_streamon dev, emit (Ioctl fd VIDIOC_STREAMON (dev_streamon dev)) w)"

definition stop_stream :: "device \<Rightarrow> int \<Rightarrow> world \<Rightarrow> int \<times> world" where
  "stop_stream dev fd w = (dev_streamoff dev, emit (Ioctl fd VIDIOC_STREAMOFF (dev_streamoff dev)) w)"

definition capture_shutdown :: "device \<Rightarrow> capture_context \<Rightarrow> world \<Rightarrow> int \<times> capture_context \<times> world" where
  "capture_shutdown dev cap w =
     (let (r, w1) = stop_stream dev (v4l2_fd cap) w in unmap_buffers dev cap w1)"

text \<open>
  How a function that may call \<^verbatim>\<open>exit\<close> ends: the process exits with a status, or the
  function returns a value. \<open>Running\<close> is used further down for a capture loop that is
  still going when the scripted part of the environment ends.
\<close>

datatype outcome = Exited int | Returned int | Running

text \<open>
  \<^verbatim>\<open>capture_setup\<close>. \<^verbatim>\<open>req.count\<close> is a \<^verbatim>\<open>__u32\<close>: the requested count is converted
  to it, the driver overwrites it with the count it grants, and that is converted back to
  the \<^verbatim>\<open>int\<close> field \<^verbatim>\<open>num_buf\<close>. \<^verbatim>\<open>opt->dma_export\<close> is an \<^verbatim>\<open>int\<close> passed for a
  \<^verbatim>\<open>bool\<close> parameter.
\<close>

definition capture_setup ::
  "device \<Rightarrow> capture_context \<Rightarrow> options \<Rightarrow> world \<Rightarrow> outcome \<times> capture_context \<times> world" where
  "capture_setup dev cap opt w =
     (let cap1 = cap\<lparr>num_planes := 2, buf_type := V4L2_BUF_TYPE_VIDEO_CAPTURE_MPLANE,
                      memory := V4L2_MEMORY_MMAP\<rparr>;
          (ret, e) = dev_s_fmt dev;
          w1 = emit (Ioctl (v4l2_fd cap1) VIDIOC_S_FMT ret) w
      in if ret < 0 then (Exited (- e), cap1, w1)
         else
          (let (ret2, granted, e2) = dev_reqbufs dev (word_of_int (buffer_count opt));
               w2 = emit (Ioctl (v4l2_fd cap1) (VIDIOC_REQBUFS (word_of_int (buffer_count opt))) ret2) w1
           in if ret2 < 0 then (Exited (- e2), cap1, w2)
              else
               (let cap2 = cap1\<lparr>num_buf := sint granted\<rparr>;
                    cap3 = fold (\<lambda>i c. fold (\<lambda>p. set_dma_buf_fd i p (- 1)) [0..<nat (num_planes c)] c)
                             [0..<nat (num_buf cap2)] cap2;
                    (ret3, cap4, w3) = map_buffers dev cap3 (dma_export opt \<noteq> 0) w2
                in if ret3 \<noteq> 0 then
                     (let (r, cap5, w4) = capture_shutdown dev cap4 w3 in (Returned ret3, cap5, w4))
                   else
                    (let (ret4, w4) = queue_buffers dev (v4l2_fd cap4) (num_buf cap4) (buffers cap4) w3
                     in if ret4 \<noteq> 0 then
                          (let (r, cap5, w5) = capture_shutdown dev cap4 w4 in (Returned ret4, cap5, w5))
                        else
                         (let (ret5, w5) = start_stream dev (v4l2_fd cap4) w4
                          in (Returned ret5, cap4, w5))))))"

section \<open>Device handles\<close>

definition get_subdevice :: "device \<Rightarrow> string \<Rightarrow> world \<Rightarrow> int \<times> world" where
  "get_subdevice dev path w =
     (let fd = dev_open dev path;
          w1 = emit (Open path fd) w
      in if fd < 0 then (- 1, w1) else (fd, w1))"

definition get_device :: "device \<Rightarrow> string \<Rightarrow> world \<Rightarrow> int \<times> world" where
  "get_device dev path w =
     (let fd = dev_open dev path;
          w1 = emit (Open path fd) w
      in if fd < 0 then (- 1, w1)
         else
          (let (r, caps) = dev_querycap dev;
               w2 = emit (Ioctl fd VIDIOC_QUERYCAP r) w1;
               fd1 = (if and caps V4L2_CAP_VIDEO_CAPTURE_MPLANE = 0 then - 1 else fd);
               fd2 = (if and caps V4L2_CAP_STREAMING = 0 then - 1 else fd1)
           in (fd2, w2)))"

section \<open>Capture and display loop\<close>

text \<open>\<^verbatim>\<open>signal_exit\<close>, the handler installed for \<^verbatim>\<open>SIGINT\<close>.\<close>

definition signal_exit :: "int \<Rightarrow> world \<Rightarrow> world" where
  "signal_exit signal w = w\<lparr>signal_quit := 1\<rparr>"

text \<open>
  What the environment does during one pass of the \<^verbatim>\<open>while\<close> loop: whether
  \<^verbatim>\<open>SIGINT\<close> is delivered before the loop condition is evaluated, the result of
  \<^verbatim>\<open>VIDIOC_DQBUF\<close> with the index it fills in and \<^verbatim>\<open>errno\<close>, the result of
  \<^verbatim>\<open>disp->render_func\<close> with \<^verbatim>\<open>errno\<close> after it, and the result of
  \<^verbatim>\<open>VIDIOC_QBUF\<close>. The renderer is opaque here: it is called through a function pointer
  and the loop uses nothing of it but the result.
\<close>

record iteration =
  sigint :: bool
  dq_ret :: int
  dq_index :: nat
  dq_errno :: int
  draw_ret :: int
  draw_errno :: int
  rq_ret :: int

text \<open>The plane addresses of one buffer, as copied into \<^verbatim>\<open>disp->render_ctx.buffers\<close>.\<close>

definition render_buffers :: "capture_context \<Rightarrow> nat \<Rightarrow> addr list" where
  "render_buffers cap index = map (\<lambda>i. buf_addr cap index i) [0..<nat (num_planes cap)]"

text \<open>
  The loop body: it returns from the function, leaves the loop by \<^verbatim>\<open>break\<close>, or
  reaches its end with a value of \<^verbatim>\<open>ret\<close> for the next test of the loop condition.
\<close>

datatype body_result = Returns int | Breaks | Continues int

definition loop_body :: "capture_context \<Rightarrow> iteration \<Rightarrow> world \<Rightarrow> body_result \<times> world" where
  "loop_body cap it w =
     (let w1 = emit (Ioctl (v4l2_fd cap) (VIDIOC_DQBUF (dq_index it)) (dq_ret it)) w
      in if dq_ret it < 0 then (Returns (dq_errno it), w1)
         else
          (let w2 = emit (Render (render_buffers cap (dq_index it)) (draw_ret it)) w1
           in if draw_ret it < 0 then (Returns (draw_errno it), w2)
              else if draw_ret it > 0 then (Breaks, w2)
              else (Continues (rq_ret it),
                    emit (Ioctl (v4l2_fd cap) (VIDIOC_QBUF (dq_index it)) (rq_ret it)) w2)))"

text \<open>
  The \<^verbatim>\<open>while (!ret && !signal_quit)\<close> loop and the \<^verbatim>\<open>return 0\<close> after it. The result
  is \<open>None\<close> when the loop condition holds and nothing more is scripted: the loop would
  go on to dequeue.
\<close>

fun capture_loop :: "capture_context \<Rightarrow> int \<Rightarrow> iteration list \<Rightarrow> world \<Rightarrow> int option \<times> world" where
  "capture_loop cap ret [] w = (if ret = 0 \<and> signal_quit w = 0 then (None, w) else (Some 0, w))"
| "capture_loop cap ret (it # its) w =
     (let w0 = (if sigint it then signal_exit SIGINT w else w)
      in if ret = 0 \<and> signal_quit w0 = 0 then
           (case loop_body cap it w0 of
              (Returns r, w') \<Rightarrow> (Some r, w')
            | (Breaks, w') \<Rightarrow> (Some 0, w')
            | (Continues ret', w') \<Rightarrow> capture_loop cap ret' its w')
         else (Some 0, w0))"

definition capture_display_yuv ::
  "device \<Rightarrow> capture_context \<Rightarrow> iteration list \<Rightarrow> world \<Rightarrow> int option \<times> world" where
  "capture_display_yuv dev cap script w =
     (let ret = dev_display_setup dev;
          w1 = emit (Display_setup (render_buffers cap 0) ret) w
      in if ret \<noteq> 0 then (Some (- 1), w1) else capture_loop cap ret script w1)"

section \<open>The session\<close>

definition capture_and_display ::
  "device \<Rightarrow> capture_context \<Rightarrow> options \<Rightarrow> iteration list \<Rightarrow> world \<Rightarrow>
     outcome \<times> capture_context \<times> world" where
  "capture_and_display dev cap opt script w =
     (let cap1 = set_test_state 0 (set_focus_state AUTO_FOCUS_ENABLED cap);
          (fd, w1) = get_device dev (dev_name opt) w;
          cap2 = cap1\<lparr>v4l2_fd := fd\<rparr>
      in if fd < 0 then (Exited 1, cap2, w1)
         else
          (let (sfd, w2) = get_subdevice dev (subdev_name opt) w1;
               cap3 = cap2\<lparr>v4l2_subdev_fd := sfd\<rparr>
           in if sfd < 0 then (Exited 1, cap3, w2)
              else
               (case capture_setup dev cap3 opt w2 of
                  (Returned ret, cap4, w3) \<Rightarrow>
                    if ret \<noteq> 0 then
                      (let (r, cap5, w4) = capture_shutdown dev cap4 w3 in (Returned ret, cap5, w4))
                    else
                      (case capture_display_yuv dev cap4 script (emit (Sigaction SIGINT) w3) of
                         (None, w4) \<Rightarrow> (Running, cap4, w4)
                       | (Some ret', w4) \<Rightarrow>
                           (let (r, cap5, w5) = capture_shutdown dev cap4 w4
                            in (Returned ret', cap5, w5)))
                | (out, cap4, w3) \<Rightarrow> (out, cap4, w3))))"

section \<open>Reading a trace\<close>

text \<open>
  The buffers the application holds after an event: a \<^verbatim>\<open>VIDIOC_DQBUF\<close> that did not
  fail hands one over, a \<^verbatim>\<open>VIDIOC_QBUF\<close> that returned 0 gives it back.
\<close>

fun owned_step :: "nat list \<Rightarrow> event \<Rightarrow> nat list" where
  "owned_step held (Ioctl fd (VIDIOC_DQBUF i) r) = (if r < 0 then held else held @ [i])"
| "owned_step held (Ioctl fd (VIDIOC_QBUF i) r) = (if r = 0 then remove1 i held else held)"
| "owned_step held e = held"

text \<open>At most one buffer is held before each event of the trace and after the last.\<close>

fun single_consumer :: "nat list \<Rightarrow> event list \<Rightarrow> bool" where
  "single_consumer held [] = (length held \<le> 1)"
| "single_consumer held (e # es) = (length held \<le> 1 \<and> single_consumer (owned_step held e) es)"

text \<open>
  A trace ends with teardown: its last event is the zero-count \<^verbatim>\<open>VIDIOC_REQBUFS\<close>,
  before it there are only \<^verbatim>\<open>close\<close> and \<^verbatim>\<open>munmap\<close> calls back to a
  \<^verbatim>\<open>VIDIOC_STREAMOFF\<close>.
\<close>

fun is_release :: "event \<Rightarrow> bool" where
  "is_release (Close fd) = True"
| "is_release (Munmap a l) = True"
| "is_release e = False"

fun is_streamoff :: "event \<Rightarrow> bool" where
  "is_streamoff (Ioctl fd VIDIOC_STREAMOFF r) = True"
| "is_streamoff e = False"

fun is_reqbufs0 :: "event \<Rightarrow> bool" where
  "is_reqbufs0 (Ioctl fd (VIDIOC_REQBUFS n) r) = (n = 0)"
| "is_reqbufs0 e = False"

definition ends_with_teardown :: "event list \<Rightarrow> bool" where
  "ends_with_teardown tr =
     (case rev tr of
        [] \<Rightarrow> False
      | e # es \<Rightarrow> is_reqbufs0 e \<and>
          (case dropWhile is_release es of [] \<Rightarrow> False | e' # es' \<Rightarrow> is_streamoff e'))"

text \<open>
  What \<^verbatim>\<open>unmap_buffers\<close> does for one plane, read off the context: the calls it makes
  and the context it leaves.
\<close>

definition release_events :: "capture_context \<Rightarrow> nat \<Rightarrow> nat \<Rightarrow> event list" where
  "release_events cap i p =
     (if buf_dma_fd cap i p \<ge> 0 then [Close (buf_dma_fd cap i p)] else []) @
     (if buf_addr cap i p \<noteq> 0 \<and> buf_addr cap i p \<noteq> MAP_FAILED
      then [Munmap (buf_addr cap i p) (buf_length cap i p)] else [])"

definition munmap_events :: "capture_context \<Rightarrow> nat \<Rightarrow> nat \<Rightarrow> event list" where
  "munmap_events cap i p =
     (if buf_addr cap i p \<noteq> 0 \<and> buf_addr cap i p \<noteq> MAP_FAILED
      then [Munmap (buf_addr cap i p) (buf_length cap i p)] else [])"

definition close_plane :: "nat \<Rightarrow> nat \<Rightarrow> capture_context \<Rightarrow> capture_context" where
  "close_plane i p cap = (if buf_dma_fd cap i p \<ge> 0 then set_dma_buf_fd i p (- 1) cap else cap)"

text \<open>
  What \<^verbatim>\<open>map_buffers\<close> does for one plane and for one buffer when nothing fails: the
  address \<^verbatim>\<open>mmap\<close> returns for plane \<open>p\<close> of the geometry \<open>planes\<close>, the calls made,
  the context left, and the condition under which the code goes on to the next plane.
  \<open>nb\<close> and \<open>np\<close> stand for \<^verbatim>\<open>cap->num_buf\<close> and \<^verbatim>\<open>cap->num_planes\<close>, \<open>fd\<close> for
  \<^verbatim>\<open>cap->v4l2_fd\<close>.
\<close>

definition plane_map_addr :: "device \<Rightarrow> (nat \<Rightarrow> v4l2_plane) \<Rightarrow> nat \<Rightarrow> addr" where
  "plane_map_addr dev planes p = fst (dev_mmap dev (plane_length (planes p)) (mem_offset (planes p)))"

definition map_plane_events ::
  "device \<Rightarrow> bool \<Rightarrow> int \<Rightarrow> nat \<Rightarrow> (nat \<Rightarrow> v4l2_plane) \<Rightarrow> nat \<Rightarrow> event list" where
  "map_plane_events dev dma fd i planes p =
     Mmap (plane_length (planes p)) (mem_offset (planes p)) (plane_map_addr dev planes p) #
     (if dma then [Ioctl fd (VIDIOC_EXPBUF i p) (fst (dev_expbuf dev i p))] else [])"

definition map_plane_cap ::
  "device \<Rightarrow> bool \<Rightarrow> nat \<Rightarrow> (nat \<Rightarrow> v4l2_plane) \<Rightarrow> nat \<Rightarrow> capture_context \<Rightarrow> capture_context" where
  "map_plane_cap dev dma i planes p cap =
     (let c = set_addr i p (plane_map_addr dev planes p) (set_length_v i p (plane_length (planes p)) cap)
      in if dma then set_dma_buf_fd i p (fst (snd (dev_expbuf dev i p))) c else c)"

definition plane_ok :: "device \<Rightarrow> bool \<Rightarrow> nat \<Rightarrow> (nat \<Rightarrow> v4l2_plane) \<Rightarrow> nat \<Rightarrow> bool" where
  "plane_ok dev dma i planes p \<longleftrightarrow>
     plane_map_addr dev planes p \<noteq> MAP_FAILED \<and> (dma \<longrightarrow> 0 \<le> fst (dev_expbuf dev i p))"

definition buffer_planes :: "device \<Rightarrow> int \<Rightarrow> nat \<Rightarrow> nat \<Rightarrow> v4l2_plane" where
  "buffer_planes dev nb i = snd (dev_querybuf dev i nb)"

definition map_buffer_events :: "device \<Rightarrow> bool \<Rightarrow> int \<Rightarrow> int \<Rightarrow> int \<Rightarrow> nat \<Rightarrow> event list" where
  "map_buffer_events dev dma fd nb np i =
     Ioctl fd (VIDIOC_QUERYBUF i nb) (fst (dev_querybuf dev i nb)) #
     concat (map (map_plane_events dev dma fd i (buffer_planes dev nb i)) [0..<nat np])"

definition map_buffer_cap :: "device \<Rightarrow> bool \<Rightarrow> nat \<Rightarrow> capture_context \<Rightarrow> capture_context" where
  "map_buffer_cap dev dma i cap =
     fold (map_plane_cap dev dma i (buffer_planes dev (num_buf cap) i)) [0..<nat (num_planes cap)]
       (set_v4l2buf_index i i cap)"

definition buffer_ok :: "device \<Rightarrow> bool \<Rightarrow> int \<Rightarrow> int \<Rightarrow> nat \<Rightarrow> bool" where
  "buffer_ok dev dma nb np i \<longleftrightarrow>
     0 \<le> fst (dev_querybuf dev i nb) \<and>
     list_all (plane_ok dev dma i (buffer_planes dev nb i)) [0..<nat np]"

text \<open>
  Plane \<open>p\<close> of buffer \<open>i\<close> of a context holds what a successful mapping stores (\<open>fd0\<close>
  is the descriptor when no export was asked for), and the same for a whole buffer.
\<close>

definition plane_mapped ::
  "device \<Rightarrow> bool \<Rightarrow> nat \<Rightarrow> (nat \<Rightarrow> v4l2_plane) \<Rightarrow> int \<Rightarrow> nat \<Rightarrow> capture_context \<Rightarrow> bool" where
  "plane_mapped dev dma i planes fd0 p c \<longleftrightarrow>
     buf_addr c i p = plane_map_addr dev planes p \<and> buf_length c i p = plane_length (planes p) \<and>
     buf_dma_fd c i p = (if dma then fst (snd (dev_expbuf dev i p)) else fd0)"

definition buffer_mapped :: "device \<Rightarrow> bool \<Rightarrow> capture_context \<Rightarrow> nat \<Rightarrow> capture_context \<Rightarrow> bool" where
  "buffer_mapped dev dma cap0 i c \<longleftrightarrow>
     v4l2buf_index (buffers c ! i) = i \<and>
     (\<forall>q < nat (num_planes cap0).
        plane_mapped dev dma i (buffer_planes dev (num_buf cap0) i) (buf_dma_fd cap0 i q) q c)"

text \<open>
  \<^verbatim>\<open>capture_setup\<close> when nothing fails: the context after the descriptors of the
  granted buffers are set to \<open>-1\<close>, the context after mapping, and the calls made.
\<close>

abbreviation (input) init_fds :: "nat list \<Rightarrow> capture_context \<Rightarrow> capture_context" where
  "init_fds js cap \<equiv> fold (\<lambda>i c. fold (\<lambda>p. set_dma_buf_fd i p (- 1)) [0..<nat (num_planes c)] c) js cap"

abbreviation (input) close_all :: "capture_context \<Rightarrow> capture_context" where
  "close_all cap \<equiv>
     fold (\<lambda>i c. fold (close_plane i) [0..<nat (num_planes c)] c) [0..<nat (num_buf cap)] cap"

definition alloc_cap :: "capture_context \<Rightarrow> 32 word \<Rightarrow> capture_context" where
  "alloc_cap cap granted =
     init_fds [0..<nat (sint granted)]
       (cap\<lparr>num_planes := 2, buf_type := V4L2_BUF_TYPE_VIDEO_CAPTURE_MPLANE,
            memory := V4L2_MEMORY_MMAP, num_buf := sint granted\<rparr>)"

definition setup_cap :: "device \<Rightarrow> bool \<Rightarrow> capture_context \<Rightarrow> 32 word \<Rightarrow> capture_context" where
  "setup_cap dev dma cap granted =
     fold (map_buffer_cap dev dma) [0..<nat (sint granted)] (alloc_cap cap granted)"

definition setup_events :: "device \<Rightarrow> options \<Rightarrow> int \<Rightarrow> event list" where
  "setup_events dev opt fd =
     (let n = word_of_int (buffer_count opt);
          granted = fst (snd (dev_reqbufs dev n))
      in [Ioctl fd VIDIOC_S_FMT (fst (dev_s_fmt dev)),
          Ioctl fd (VIDIOC_REQBUFS n) (fst (dev_reqbufs dev n))] @
         concat (map (map_buffer_events dev (dma_export opt \<noteq> 0) fd (sint granted) 2)
           [0..<nat (sint granted)]) @
         map (\<lambda>i. Ioctl fd (VIDIOC_QBUF i) 0) [0..<nat (sint granted)] @
         [Ioctl fd VIDIOC_STREAMON (dev_streamon dev)])"

text \<open>The calls of \<^verbatim>\<open>capture_shutdown\<close> on a context: stop the stream, release, free.\<close>

definition teardown_events :: "device \<Rightarrow> capture_context \<Rightarrow> event list" where
  "teardown_events dev cap =
     Ioctl (v4l2_fd cap) VIDIOC_STREAMOFF (dev_streamoff dev) #
     concat (map (\<lambda>i. concat (map (release_events cap i) [0..<nat (num_planes cap)]))
       [0..<nat (num_buf cap)]) @
     [Ioctl (v4l2_fd cap) (VIDIOC_REQBUFS 0) (fst (dev_reqbufs dev 0))]"

text \<open>The buffers held after a whole trace, starting with none.\<close>

definition owned :: "event list \<Rightarrow> nat list" where
  "owned tr = foldl owned_step [] tr"

text \<open>The addresses mapped and unmapped in a trace, in order, and other projections.\<close>

fun mmap_addrs :: "event list \<Rightarrow> addr list" where
  "mmap_addrs [] = []"
| "mmap_addrs (Mmap l off a # es) = a # mmap_addrs es"
| "mmap_addrs (e # es) = mmap_addrs es"

fun munmap_addrs :: "event list \<Rightarrow> addr list" where
  "munmap_addrs [] = []"
| "munmap_addrs (Munmap a l # es) = a # munmap_addrs es"
| "munmap_addrs (e # es) = munmap_addrs es"

fun querybuf_indices :: "event list \<Rightarrow> nat list" where
  "querybuf_indices [] = []"
| "querybuf_indices (Ioctl fd (VIDIOC_QUERYBUF i n) r # es) = i # querybuf_indices es"
| "querybuf_indices (e # es) = querybuf_indices es"

fun qbuf_indices :: "event list \<Rightarrow> nat list" where
  "qbuf_indices [] = []"
| "qbuf_indices (Ioctl fd (VIDIOC_QBUF i) r # es) = i # qbuf_indices es"
| "qbuf_indices (e # es) = qbuf_indices es"

fun dqbuf_count :: "event list \<Rightarrow> nat" where
  "dqbuf_count [] = 0"
| "dqbuf_count (Ioctl fd (VIDIOC_DQBUF i) r # es) = Suc (dqbuf_count es)"
| "dqbuf_count (e # es) = dqbuf_count es"

text \<open>
  The transition table of the specification, as a function: the next state and the control
  that belongs to it, or \<open>None\<close> where the table defines no transition. The commands
  RequestAuto, RequestSingle and RequestPause are the values \<open>AUTO_FOCUS_ENABLED\<close>,
  \<open>SINGLE_FOCUS_START\<close> and \<open>FOCUS_PAUSE\<close> that \<^verbatim>\<open>do_key_event\<close> passes.
\<close>

definition spec_focus_table :: "int \<Rightarrow> int \<Rightarrow> (int \<times> v4l2_control) option" where
  "spec_focus_table s c =
     (let enable_af = \<lparr>ctrl_id = V4L2_CID_FOCUS_AUTO, ctrl_value = 1\<rparr>;
          disable_af = \<lparr>ctrl_id = V4L2_CID_FOCUS_AUTO, ctrl_value = 0\<rparr>;
          single_af = \<lparr>ctrl_id = V4L2_CID_AUTO_FOCUS_START, ctrl_value = 1\<rparr>;
          lock_focus = \<lparr>ctrl_id = V4L2_CID_3A_LOCK, ctrl_value = V4L2_LOCK_FOCUS\<rparr>
      in if c = AUTO_FOCUS_ENABLED then
           (if s = IDLE_FOCUS then Some (AUTO_FOCUS_ENABLED, enable_af)
            else if s = AUTO_FOCUS_ENABLED then Some (IDLE_FOCUS, disable_af)
            else if s = SINGLE_FOCUS_START then Some (AUTO_FOCUS_ENABLED, enable_af)
            else if s = FOCUS_PAUSE then Some (AUTO_FOCUS_ENABLED, enable_af)
            else None)
         else if c = SINGLE_FOCUS_START then
           (if s = IDLE_FOCUS \<or> s = AUTO_FOCUS_ENABLED \<or> s = SINGLE_FOCUS_START \<or> s = FOCUS_PAUSE
            then Some (SINGLE_FOCUS_START, single_af) else None)
         else if c = FOCUS_PAUSE then
           (if s = AUTO_FOCUS_ENABLED \<or> s = SINGLE_FOCUS_START then Some (FOCUS_PAUSE, lock_focus)
            else None)
         else None)"

text \<open>
  A device and options with which the session reaches the capture loop: both devices open,
  the capture device has the two capabilities, the format and the buffer request are
  accepted, the granted count fits the array, every query, mapping, export and queue call
  for the granted buffers succeeds, and the stream and the display start.
\<close>

definition granted_count :: "device \<Rightarrow> options \<Rightarrow> 32 word" where
  "granted_count dev opt = fst (snd (dev_reqbufs dev (word_of_int (buffer_count opt))))"

definition setup_succeeds :: "device \<Rightarrow> options \<Rightarrow> bool" where
  "setup_succeeds dev opt \<longleftrightarrow>
     0 \<le> fst (dev_s_fmt dev) \<and>
     0 \<le> fst (dev_reqbufs dev (word_of_int (buffer_count opt))) \<and>
     nat (sint (granted_count dev opt)) \<le> VIDEO_MAX_FRAME \<and>
     list_all (buffer_ok dev (dma_export opt \<noteq> 0) (sint (granted_count dev opt)) 2)
       [0..<nat (sint (granted_count dev opt))] \<and>
     list_all (\<lambda>i. dev_qbuf dev i = 0) [0..<nat (sint (granted_count dev opt))]"


definition session_starts :: "device \<Rightarrow> options \<Rightarrow> bool" where
  "session_starts dev opt \<longleftrightarrow>
     0 \<le> dev_open dev (dev_name opt) \<and>
     and (snd (dev_querycap dev)) V4L2_CAP_VIDEO_CAPTURE_MPLANE \<noteq> 0 \<and>
     and (snd (dev_querycap dev)) V4L2_CAP_STREAMING \<noteq> 0 \<and>
     0 \<le> dev_open dev (subdev_name opt) \<and>
     setup_succeeds dev opt \<and> dev_streamon dev = 0 \<and> dev_display_setup dev = 0"

text \<open>
  The context and the calls of a session that has reached the capture loop.
\<close>

definition session_cap :: "device \<Rightarrow> options \<Rightarrow> capture_context \<Rightarrow> capture_context" where
  "session_cap dev opt cap =
     setup_cap dev (dma_export opt \<noteq> 0)
       ((set_test_state 0 (set_focus_state AUTO_FOCUS_ENABLED cap))
          \<lparr>v4l2_fd := dev_open dev (dev_name opt), v4l2_subdev_fd := dev_open dev (subdev_name opt)\<rparr>)
       (granted_count dev opt)"

definition session_events :: "device \<Rightarrow> options \<Rightarrow> capture_context \<Rightarrow> event list" where
  "session_events dev opt cap =
     [Open (dev_name opt) (dev_open dev (dev_name opt)),
      Ioctl (dev_open dev (dev_name opt)) VIDIOC_QUERYCAP (fst (dev_querycap dev)),
      Open (subdev_name opt) (dev_open dev (subdev_name opt))] @
     setup_events dev opt (dev_open dev (dev_name opt)) @
     [Sigaction SIGINT, Display_setup (render_buffers (session_cap dev opt cap) 0) 0]"

text \<open>
  The context when both devices are open, and the calls made up to and including the buffer
  request.
\<close>

definition opened_cap :: "device \<Rightarrow> options \<Rightarrow> capture_context \<Rightarrow> capture_context" where
  "opened_cap dev opt cap =
     (set_test_state 0 (set_focus_state AUTO_FOCUS_ENABLED cap))
       \<lparr>v4l2_fd := dev_open dev (dev_name opt), v4l2_subdev_fd := dev_open dev (subdev_name opt)\<rparr>"


section \<open>Concrete inputs\<close>

text \<open>
  The context as \<^verbatim>\<open>main\<close> hands it over, after \<^verbatim>\<open>memset(cap, 0, sizeof(*cap))\<close>; a
  device on which every call succeeds and which grants every buffer asked for; a device
  that rejects every control request; and the program state at start.
\<close>

definition buf_zeroed :: video_buf_map where
  "buf_zeroed = \<lparr>length_v = replicate VIDEO_MAX_PLANES 0, addr = replicate VIDEO_MAX_PLANES 0,
     dma_buf_fd = replicate VIDEO_MAX_PLANES 0, v4l2buf_index = 0\<rparr>"

definition cap_zeroed :: capture_context where
  "cap_zeroed = \<lparr>buffers = replicate VIDEO_MAX_FRAME buf_zeroed,
     app = \<lparr>app_focus_state = 0, app_test_state = 0\<rparr>,
     num_buf = 0, num_planes = 0, buf_type = 0, memory = 0, v4l2_fd = 0, v4l2_subdev_fd = 0\<rparr>"

definition dev_ok :: device where
  "dev_ok = \<lparr>dev_open = (\<lambda>p. if p = ''/dev/video3'' then 3 else 4),
     dev_querycap = (0, 0x04001000), dev_s_fmt = (0, 0),
     dev_reqbufs = (\<lambda>n. (0, n, 0)),
     dev_querybuf = (\<lambda>i len. (0, \<lambda>p. \<lparr>plane_length = 4096, mem_offset = 8192 * i + 4096 * p\<rparr>)),
     dev_mmap = (\<lambda>l off. (word_of_nat (65536 + off), 0)),
     dev_expbuf = (\<lambda>i p. (0, 10 + 2 * int i + int p, 0)),
     dev_qbuf = (\<lambda>i. 0), dev_streamon = 0, dev_streamoff = 0,
     dev_s_ctrl = (\<lambda>c. 0), dev_display_setup = 0\<rparr>"

definition dev_ctrl_rejected :: device where
  "dev_ctrl_rejected = dev_ok\<lparr>dev_s_ctrl := (\<lambda>c. - 1)\<rparr>"

definition opts_default :: options where
  "opts_default = \<lparr>buffer_count = 4, dma_export = 0, dev_name = ''/dev/video3'',
     subdev_name = ''/dev/v4l-subdev10''\<rparr>"

definition dev_mmap_fails_buf2 :: device where
  "dev_mmap_fails_buf2 =
     dev_ok\<lparr>dev_mmap := (\<lambda>l off. if off = 16384 then (MAP_FAILED, 12) else (word_of_nat (65536 + off), 0))\<rparr>"

text \<open>
  The context \<^verbatim>\<open>map_buffers\<close> leaves on that device: buffers 0 and 1 mapped, the
  failed address stored for the first plane of buffer 2, nothing else touched.
\<close>

definition cap_mmap_failed :: "capture_context \<Rightarrow> capture_context" where
  "cap_mmap_failed cap =
     set_addr 2 0 MAP_FAILED (set_length_v 2 0 4096 (set_v4l2buf_index 2 2
       (map_buffer_cap dev_mmap_fails_buf2 False (Suc 0)
         (map_buffer_cap dev_mmap_fails_buf2 False 0 (alloc_cap cap 4)))))"







text \<open>
  Passes of the loop: a frame is drawn and the buffer re-queued; the renderer asks to leave;
  \<^verbatim>\<open>SIGINT\<close> arrives before the pass; the re-queue is refused; the dequeue is refused.
\<close>

definition it_continue :: iteration where
  "it_continue = \<lparr>sigint = False, dq_ret = 0, dq_index = 2, dq_errno = 0, draw_ret = 0,
     draw_errno = 0, rq_ret = 0\<rparr>"

definition it_exit :: iteration where
  "it_exit = it_continue\<lparr>dq_index := 3, draw_ret := 1\<rparr>"

definition it_sigint :: iteration where
  "it_sigint = it_continue\<lparr>sigint := True\<rparr>"

definition it_requeue_fails :: iteration where
  "it_requeue_fails = it_continue\<lparr>rq_ret := - 1\<rparr>"


definition world_init :: world where
  "world_init = \<lparr>signal_quit = 0, trace = []\<rparr>"

section \<open>Lemmas about the buffer pool, the loop and the session\<close>

subsection \<open>Reading and writing the plane arrays\<close>

lemmas setter_defs = set_length_v_def set_addr_def set_dma_buf_fd_def set_v4l2buf_index_def
lemmas getter_defs = buf_length_def buf_addr_def buf_dma_fd_def

lemma setter_fields [simp]:
  "num_buf (set_length_v i p n cap) = num_buf cap" "num_buf (set_addr i p a cap) = num_buf cap"
  "num_buf (set_dma_buf_fd i p f cap) = num_buf cap" "num_buf (set_v4l2buf_index i k cap) = num_buf cap"
  "num_planes (set_length_v i p n cap) = num_planes cap" "num_planes (set_addr i p a cap) = num_planes cap"
  "num_planes (set_dma_buf_fd i p f cap) = num_planes cap" "num_planes (set_v4l2buf_index i k cap) = num_planes cap"
  "v4l2_fd (set_length_v i p n cap) = v4l2_fd cap" "v4l2_fd (set_addr i p a cap) = v4l2_fd cap"
  "v4l2_fd (set_dma_buf_fd i p f cap) = v4l2_fd cap" "v4l2_fd (set_v4l2buf_index i k cap) = v4l2_fd cap"
  "length (buffers (set_length_v i p n cap)) = length (buffers cap)"
  "length (buffers (set_addr i p a cap)) = length (buffers cap)"
  "length (buffers (set_dma_buf_fd i p f cap)) = length (buffers cap)"
  "length (buffers (set_v4l2buf_index i k cap)) = length (buffers cap)"
  by (simp_all add: setter_defs)

lemma nth_update_field:
  "f y = f (xs ! i) \<Longrightarrow> f (xs[i := y] ! j) = f (xs ! j)"
  by (cases "i < length xs") (auto simp add: nth_list_update list_update_beyond not_less)

lemma list_all_update:
  "list_all P xs \<Longrightarrow> (i < length xs \<Longrightarrow> P y) \<Longrightarrow> list_all P (xs[i := y])"
  by (cases "i < length xs") (auto simp add: list_all_length nth_list_update list_update_beyond not_less)

lemma wf_buf_update [simp]:
  "wf_buf (b\<lparr>length_v := (length_v b)[p := n]\<rparr>) = wf_buf b"
  "wf_buf (b\<lparr>addr := (addr b)[p := a]\<rparr>) = wf_buf b"
  "wf_buf (b\<lparr>dma_buf_fd := (dma_buf_fd b)[p := f]\<rparr>) = wf_buf b"
  "wf_buf (b\<lparr>v4l2buf_index := k\<rparr>) = wf_buf b"
  by (simp_all add: wf_buf_def)

lemma wf_cap_setters [simp]:
  assumes "wf_cap cap"
  shows "wf_cap (set_length_v i p n cap)" "wf_cap (set_addr i p a cap)"
    "wf_cap (set_dma_buf_fd i p f cap)" "wf_cap (set_v4l2buf_index i k cap)"
proof -
  have b: "i < length (buffers cap) \<Longrightarrow> wf_buf (buffers cap ! i)"
    using assms by (simp add: wf_cap_def list_all_length)
  show "wf_cap (set_length_v i p n cap)" "wf_cap (set_addr i p a cap)"
    "wf_cap (set_dma_buf_fd i p f cap)" "wf_cap (set_v4l2buf_index i k cap)"
    using assms b by (simp_all add: wf_cap_def setter_defs list_all_update)
qed

lemma wf_cap_fields [simp]:
  "wf_cap (cap\<lparr>num_buf := n\<rparr>) = wf_cap cap" "wf_cap (cap\<lparr>num_planes := m\<rparr>) = wf_cap cap"
  "wf_cap (cap\<lparr>buf_type := t\<rparr>) = wf_cap cap" "wf_cap (cap\<lparr>memory := t\<rparr>) = wf_cap cap"
  "wf_cap (cap\<lparr>v4l2_fd := fd\<rparr>) = wf_cap cap" "wf_cap (cap\<lparr>v4l2_subdev_fd := fd\<rparr>) = wf_cap cap"
  "wf_cap (cap\<lparr>app := a\<rparr>) = wf_cap cap"
  by (simp_all add: wf_cap_def)

lemma buf_addr_frame [simp]:
  "buf_addr (set_length_v i p n cap) j q = buf_addr cap j q"
  "buf_addr (set_dma_buf_fd i p f cap) j q = buf_addr cap j q"
  "buf_addr (set_v4l2buf_index i k cap) j q = buf_addr cap j q"
  by (simp_all add: setter_defs getter_defs nth_update_field)

lemma buf_length_frame [simp]:
  "buf_length (set_addr i p a cap) j q = buf_length cap j q"
  "buf_length (set_dma_buf_fd i p f cap) j q = buf_length cap j q"
  "buf_length (set_v4l2buf_index i k cap) j q = buf_length cap j q"
  by (simp_all add: setter_defs getter_defs nth_update_field)

lemma buf_dma_fd_frame [simp]:
  "buf_dma_fd (set_addr i p a cap) j q = buf_dma_fd cap j q"
  "buf_dma_fd (set_length_v i p n cap) j q = buf_dma_fd cap j q"
  "buf_dma_fd (set_v4l2buf_index i k cap) j q = buf_dma_fd cap j q"
  by (simp_all add: setter_defs getter_defs nth_update_field)

lemma buf_index_frame [simp]:
  "v4l2buf_index (buffers (set_addr i p a cap) ! j) = v4l2buf_index (buffers cap ! j)"
  "v4l2buf_index (buffers (set_length_v i p n cap) ! j) = v4l2buf_index (buffers cap ! j)"
  "v4l2buf_index (buffers (set_dma_buf_fd i p f cap) ! j) = v4l2buf_index (buffers cap ! j)"
  by (simp_all add: setter_defs getter_defs nth_update_field)

lemma buf_index_set:
  "i < length (buffers cap) \<Longrightarrow>
   v4l2buf_index (buffers (set_v4l2buf_index i k cap) ! j) = (if j = i then k else v4l2buf_index (buffers cap ! j))"
  by (simp add: setter_defs nth_list_update)

lemma wf_capD:
  "wf_cap cap \<Longrightarrow> i < VIDEO_MAX_FRAME \<Longrightarrow> i < length (buffers cap) \<and>
     length (length_v (buffers cap ! i)) = VIDEO_MAX_PLANES \<and> length (addr (buffers cap ! i)) = VIDEO_MAX_PLANES \<and>
     length (dma_buf_fd (buffers cap ! i)) = VIDEO_MAX_PLANES"
  by (simp add: wf_cap_def wf_buf_def list_all_length)

lemma buf_addr_set:
  "wf_cap cap \<Longrightarrow> i < VIDEO_MAX_FRAME \<Longrightarrow> p < VIDEO_MAX_PLANES \<Longrightarrow>
   buf_addr (set_addr i p a cap) j q = (if j = i \<and> q = p then a else buf_addr cap j q)"
  using wf_capD [of cap i]
  by (simp add: setter_defs getter_defs nth_list_update)

lemma buf_length_set:
  "wf_cap cap \<Longrightarrow> i < VIDEO_MAX_FRAME \<Longrightarrow> p < VIDEO_MAX_PLANES \<Longrightarrow>
   buf_length (set_length_v i p n cap) j q = (if j = i \<and> q = p then n else buf_length cap j q)"
  using wf_capD [of cap i]
  by (simp add: setter_defs getter_defs nth_list_update)

lemma buf_dma_fd_set:
  "wf_cap cap \<Longrightarrow> i < VIDEO_MAX_FRAME \<Longrightarrow> p < VIDEO_MAX_PLANES \<Longrightarrow>
   buf_dma_fd (set_dma_buf_fd i p f cap) j q = (if j = i \<and> q = p then f else buf_dma_fd cap j q)"
  using wf_capD [of cap i]
  by (simp add: setter_defs getter_defs nth_list_update)

lemma buf_dma_fd_set_other:
  "(j, q) \<noteq> (i, p) \<Longrightarrow> buf_dma_fd (set_dma_buf_fd i p f cap) j q = buf_dma_fd cap j q"
  by (cases "i < length (buffers cap)"; cases "j = i")
    (auto simp add: setter_defs getter_defs nth_list_update list_update_beyond not_less)

subsection \<open>Releasing the planes\<close>

lemma unmap_plane_eq:
  "unmap_plane i p (cap, w) = (close_plane i p cap, w\<lparr>trace := trace w @ release_events cap i p\<rparr>)"
  by (simp add: unmap_plane_def close_plane_def release_events_def emit_def Let_def)

lemma close_plane_fields [simp]:
  "num_buf (close_plane i p cap) = num_buf cap" "num_planes (close_plane i p cap) = num_planes cap"
  "v4l2_fd (close_plane i p cap) = v4l2_fd cap"
  "buf_addr (close_plane i p cap) j q = buf_addr cap j q"
  "buf_length (close_plane i p cap) j q = buf_length cap j q"
  "length (buffers (close_plane i p cap)) = length (buffers cap)"
  by (simp_all add: close_plane_def)

lemma wf_cap_close_plane [simp]: "wf_cap cap \<Longrightarrow> wf_cap (close_plane i p cap)"
  by (simp add: close_plane_def)

lemma buf_dma_fd_close_plane_other:
  "(j, q) \<noteq> (i, p) \<Longrightarrow> buf_dma_fd (close_plane i p cap) j q = buf_dma_fd cap j q"
  by (simp add: close_plane_def buf_dma_fd_set_other)

lemma buf_dma_fd_close_plane_neg:
  "buf_dma_fd cap j q < 0 \<Longrightarrow> buf_dma_fd (close_plane i p cap) j q < 0"
  by (cases "(j, q) = (i, p)") (auto simp add: close_plane_def buf_dma_fd_set_other)

lemma buf_dma_fd_close_plane_same:
  "wf_cap cap \<Longrightarrow> i < VIDEO_MAX_FRAME \<Longrightarrow> p < VIDEO_MAX_PLANES \<Longrightarrow> buf_dma_fd (close_plane i p cap) i p < 0"
  by (simp add: close_plane_def buf_dma_fd_set)

lemma release_events_close_plane_other:
  "(j, q) \<noteq> (i, p) \<Longrightarrow> release_events (close_plane i p cap) j q = release_events cap j q"
  by (simp add: release_events_def buf_dma_fd_close_plane_other)

lemma fold_unmap_plane:
  "distinct ps \<Longrightarrow>
   fold (unmap_plane i) ps (cap, w) =
     (fold (close_plane i) ps cap, w\<lparr>trace := trace w @ concat (map (release_events cap i) ps)\<rparr>)"
proof (induction ps arbitrary: cap w)
  case Nil
  show ?case by simp
next
  case (Cons p ps)
  have eq: "map (release_events (close_plane i p cap) i) ps = map (release_events cap i) ps"
    using Cons.prems by (intro map_cong refl release_events_close_plane_other) auto
  from Cons.prems show ?case
    by (simp add: unmap_plane_eq Cons.IH eq)
qed

lemma fold_close_plane_fields [simp]:
  "num_buf (fold (close_plane i) ps cap) = num_buf cap"
  "num_planes (fold (close_plane i) ps cap) = num_planes cap"
  "v4l2_fd (fold (close_plane i) ps cap) = v4l2_fd cap"
  "buf_addr (fold (close_plane i) ps cap) j q = buf_addr cap j q"
  "buf_length (fold (close_plane i) ps cap) j q = buf_length cap j q"
  by (induction ps arbitrary: cap; simp)+

lemma wf_cap_fold_close_plane [simp]: "wf_cap cap \<Longrightarrow> wf_cap (fold (close_plane i) ps cap)"
  by (induction ps arbitrary: cap) simp_all

lemma buf_dma_fd_fold_close_plane_other:
  "j \<noteq> i \<or> q \<notin> set ps \<Longrightarrow> buf_dma_fd (fold (close_plane i) ps cap) j q = buf_dma_fd cap j q"
  by (induction ps arbitrary: cap) (auto simp add: buf_dma_fd_close_plane_other)

lemma buf_dma_fd_fold_close_plane_neg:
  "buf_dma_fd cap j q < 0 \<Longrightarrow> buf_dma_fd (fold (close_plane i) ps cap) j q < 0"
  by (induction ps arbitrary: cap) (simp_all add: buf_dma_fd_close_plane_neg)

lemma buf_dma_fd_fold_close_plane_same:
  "wf_cap cap \<Longrightarrow> i < VIDEO_MAX_FRAME \<Longrightarrow> \<forall>p\<in>set ps. p < VIDEO_MAX_PLANES \<Longrightarrow> q \<in> set ps \<Longrightarrow>
   buf_dma_fd (fold (close_plane i) ps cap) i q < 0"
proof (induction ps arbitrary: cap)
  case Nil
  then show ?case by simp
next
  case (Cons p ps)
  show ?case
  proof (cases "q = p")
    case True
    with Cons.prems show ?thesis
      by (simp add: buf_dma_fd_fold_close_plane_neg buf_dma_fd_close_plane_same)
  next
    case False
    with Cons show ?thesis by simp
  qed
qed

lemma release_events_fold_close_plane_other:
  "j \<noteq> i \<Longrightarrow> release_events (fold (close_plane i) ps cap) j q = release_events cap j q"
  by (simp add: release_events_def buf_dma_fd_fold_close_plane_other)

lemma fold_unmap_buffers:
  "distinct js \<Longrightarrow>
   fold (\<lambda>i s. fold (\<lambda>p. unmap_plane i p) [0..<nat (num_planes (fst s))] s) js (cap, w) =
     (fold (\<lambda>i c. fold (close_plane i) [0..<nat (num_planes c)] c) js cap,
      w\<lparr>trace := trace w @
         concat (map (\<lambda>i. concat (map (release_events cap i) [0..<nat (num_planes cap)])) js)\<rparr>)"
proof (induction js arbitrary: cap w)
  case Nil
  show ?case by simp
next
  case (Cons j js)
  let ?c = "fold (close_plane j) [0..<nat (num_planes cap)] cap"
  have eq: "map (\<lambda>i. concat (map (release_events ?c i) [0..<nat (num_planes cap)])) js =
            map (\<lambda>i. concat (map (release_events cap i) [0..<nat (num_planes cap)])) js"
    using Cons.prems
    by (intro map_cong refl arg_cong [where f = concat]) (auto intro!: release_events_fold_close_plane_other)
  from Cons.prems show ?case
    by (simp add: fold_unmap_plane Cons.IH eq)
qed

lemma close_all_fields [simp]:
  "num_buf (fold (\<lambda>i c. fold (close_plane i) [0..<nat (num_planes c)] c) js cap) = num_buf cap"
  "num_planes (fold (\<lambda>i c. fold (close_plane i) [0..<nat (num_planes c)] c) js cap) = num_planes cap"
  "v4l2_fd (fold (\<lambda>i c. fold (close_plane i) [0..<nat (num_planes c)] c) js cap) = v4l2_fd cap"
  "buf_addr (fold (\<lambda>i c. fold (close_plane i) [0..<nat (num_planes c)] c) js cap) j q = buf_addr cap j q"
  "buf_length (fold (\<lambda>i c. fold (close_plane i) [0..<nat (num_planes c)] c) js cap) j q = buf_length cap j q"
  by (induction js arbitrary: cap; simp)+

lemma wf_cap_close_all [simp]:
  "wf_cap cap \<Longrightarrow> wf_cap (fold (\<lambda>i c. fold (close_plane i) [0..<nat (num_planes c)] c) js cap)"
  by (induction js arbitrary: cap) simp_all

lemma buf_dma_fd_close_all_neg:
  "buf_dma_fd cap j q < 0 \<Longrightarrow>
   buf_dma_fd (fold (\<lambda>i c. fold (close_plane i) [0..<nat (num_planes c)] c) js cap) j q < 0"
  by (induction js arbitrary: cap) (simp_all add: buf_dma_fd_fold_close_plane_neg)

lemma buf_dma_fd_close_all_same:
  "wf_cap cap \<Longrightarrow> \<forall>i\<in>set js. i < VIDEO_MAX_FRAME \<Longrightarrow> nat (num_planes cap) \<le> VIDEO_MAX_PLANES \<Longrightarrow>
   j \<in> set js \<Longrightarrow> q < nat (num_planes cap) \<Longrightarrow>
   buf_dma_fd (fold (\<lambda>i c. fold (close_plane i) [0..<nat (num_planes c)] c) js cap) j q < 0"
proof (induction js arbitrary: cap)
  case Nil
  then show ?case by simp
next
  case (Cons i js)
  show ?case
  proof (cases "j = i")
    case True
    with Cons.prems show ?thesis
      by (simp add: buf_dma_fd_close_all_neg buf_dma_fd_fold_close_plane_same)
  next
    case False
    with Cons show ?thesis by simp
  qed
qed

text \<open>\<^verbatim>\<open>unmap_buffers\<close> in closed form.\<close>

lemma unmap_buffers_eq:
  "unmap_buffers dev cap w =
     (fst (dev_reqbufs dev 0),
      fold (\<lambda>i c. fold (close_plane i) [0..<nat (num_planes c)] c) [0..<nat (num_buf cap)] cap,
      w\<lparr>trace := trace w @
         concat (map (\<lambda>i. concat (map (release_events cap i) [0..<nat (num_planes cap)])) [0..<nat (num_buf cap)]) @
         [Ioctl (v4l2_fd cap) (VIDIOC_REQBUFS 0) (fst (dev_reqbufs dev 0))]\<rparr>)"
  by (simp add: unmap_buffers_def fold_unmap_buffers emit_def Let_def split: prod.splits)

lemma capture_shutdown_eq:
  "capture_shutdown dev cap w =
     (fst (dev_reqbufs dev 0),
      fold (\<lambda>i c. fold (close_plane i) [0..<nat (num_planes c)] c) [0..<nat (num_buf cap)] cap,
      w\<lparr>trace := trace w @ teardown_events dev cap\<rparr>)"
  by (simp add: capture_shutdown_def stop_stream_def unmap_buffers_eq teardown_events_def emit_def)

lemma is_release_release_events: "list_all is_release (release_events cap i p)"
  by (simp add: release_events_def)

lemma list_all_concat_map: "(\<And>x. list_all P (f x)) \<Longrightarrow> list_all P (concat (map f xs))"
  by (induction xs) simp_all

lemma dropWhile_all:
  "list_all P xs \<Longrightarrow> dropWhile P (xs @ ys) = dropWhile P ys"
  by (induction xs) simp_all

lemma dropWhile_rev_all:
  "list_all P xs \<Longrightarrow> \<not> P y \<Longrightarrow> dropWhile P (rev xs @ y # zs) = y # zs"
  using dropWhile_all [of P "rev xs" "y # zs"] by simp

lemma ends_with_teardown_append:
  "ends_with_teardown (tr @ teardown_events dev cap)"
proof -
  let ?rel = "concat (map (\<lambda>i. concat (map (release_events cap i) [0..<nat (num_planes cap)])) [0..<nat (num_buf cap)])"
  let ?off = "Ioctl (v4l2_fd cap) VIDIOC_STREAMOFF (dev_streamoff dev)"
  have rel: "list_all is_release ?rel"
    by (intro list_all_concat_map is_release_release_events)
  have "dropWhile is_release (rev ?rel @ ?off # rev tr) = ?off # rev tr"
    using rel by (rule dropWhile_rev_all) simp
  then show ?thesis
    by (simp add: ends_with_teardown_def teardown_events_def)
qed

subsection \<open>The capture loop\<close>

lemma capture_loop_append:
  "capture_loop cap ret pre w = (None, w1) \<Longrightarrow>
   capture_loop cap ret (pre @ rest) w = capture_loop cap 0 rest w1"
proof (induction pre arbitrary: ret w)
  case Nil
  then show ?case by (cases rest) (auto split: if_splits)
next
  case (Cons it pre)
  then show ?case
    by (auto simp add: Let_def split: if_splits prod.splits body_result.splits)
qed

lemma capture_loop_None_signal:
  "capture_loop cap ret pre w = (None, w1) \<Longrightarrow> signal_quit w1 = 0"
  by (induction pre arbitrary: ret w) (auto simp add: Let_def split: if_splits prod.splits body_result.splits)

lemma single_consumer_append:
  "single_consumer h (xs @ ys) \<longleftrightarrow> single_consumer h xs \<and> single_consumer (foldl owned_step h xs) ys"
proof (induction xs arbitrary: h)
  case Nil
  show ?case by (cases ys) auto
next
  case (Cons x xs)
  then show ?case by auto
qed

lemma capture_loop_single_consumer:
  "single_consumer [] (trace w) \<Longrightarrow> length (owned (trace w)) \<le> 1 \<Longrightarrow> (ret = 0 \<longrightarrow> owned (trace w) = []) \<Longrightarrow>
   single_consumer [] (trace (snd (capture_loop cap ret script w)))"
proof (induction script arbitrary: ret w)
  case Nil
  then show ?case by simp
next
  case (Cons it its)
  let ?w0 = "if sigint it then signal_exit SIGINT w else w"
  have t0: "trace ?w0 = trace w" by (simp add: signal_exit_def)
  show ?case
  proof (cases "ret = 0 \<and> signal_quit ?w0 = 0")
    case False
    then show ?thesis using Cons.prems t0 by (auto simp add: Let_def)
  next
    case True
    then have o: "owned (trace w) = []" using Cons.prems by simp
    obtain b w' where b: "loop_body cap it ?w0 = (b, w')" by (cases "loop_body cap it ?w0")
    show ?thesis
    proof (cases b)
      case (Returns r)
      with b True Cons.prems o t0 show ?thesis
        by (auto simp add: Let_def loop_body_def emit_def single_consumer_append owned_def split: if_splits)
    next
      case Breaks
      with b True Cons.prems o t0 show ?thesis
        by (auto simp add: Let_def loop_body_def emit_def single_consumer_append owned_def split: if_splits)
    next
      case (Continues r')
      from b Continues have w': "trace w' = trace w @ [Ioctl (v4l2_fd cap) (VIDIOC_DQBUF (dq_index it)) (dq_ret it),
          Render (render_buffers cap (dq_index it)) (draw_ret it),
          Ioctl (v4l2_fd cap) (VIDIOC_QBUF (dq_index it)) (rq_ret it)]"
        and r': "r' = rq_ret it" and dq: "\<not> dq_ret it < 0"
        using t0 by (auto simp add: Let_def loop_body_def emit_def split: if_splits)
      have 1: "single_consumer [] (trace w')"
        using Cons.prems o dq by (simp add: w' single_consumer_append owned_def)
      have 2: "length (owned (trace w')) \<le> 1"
        using o dq by (simp add: w' owned_def)
      have 3: "r' = 0 \<longrightarrow> owned (trace w') = []"
        using o dq r' by (simp add: w' owned_def)
      have "single_consumer [] (trace (snd (capture_loop cap r' its w')))"
        using 1 2 3 by (rule Cons.IH)
      with b True Continues show ?thesis by (simp add: Let_def)
    qed
  qed
qed

lemma map_plane_ok:
  "plane_ok dev dma i planes p \<Longrightarrow>
   map_plane dev dma i planes p cap w =
     (None, map_plane_cap dev dma i planes p cap,
      w\<lparr>trace := trace w @ map_plane_events dev dma (v4l2_fd cap) i planes p\<rparr>)"
  by (auto simp add: map_plane_def plane_ok_def map_plane_cap_def map_plane_events_def plane_map_addr_def
      emit_def Let_def case_prod_beta)

lemma map_plane_cap_fields [simp]:
  "num_buf (map_plane_cap dev dma i planes p cap) = num_buf cap"
  "num_planes (map_plane_cap dev dma i planes p cap) = num_planes cap"
  "v4l2_fd (map_plane_cap dev dma i planes p cap) = v4l2_fd cap"
  "length (buffers (map_plane_cap dev dma i planes p cap)) = length (buffers cap)"
  by (simp_all add: map_plane_cap_def Let_def)

lemma wf_cap_map_plane_cap [simp]: "wf_cap cap \<Longrightarrow> wf_cap (map_plane_cap dev dma i planes p cap)"
  by (simp add: map_plane_cap_def Let_def)

lemma fold_map_plane_cap_fields [simp]:
  "num_buf (fold (map_plane_cap dev dma i planes) ps cap) = num_buf cap"
  "num_planes (fold (map_plane_cap dev dma i planes) ps cap) = num_planes cap"
  "v4l2_fd (fold (map_plane_cap dev dma i planes) ps cap) = v4l2_fd cap"
  by (induction ps arbitrary: cap; simp)+

lemma wf_cap_fold_map_plane_cap [simp]:
  "wf_cap cap \<Longrightarrow> wf_cap (fold (map_plane_cap dev dma i planes) ps cap)"
  by (induction ps arbitrary: cap) simp_all

lemma map_planes_ok:
  "list_all (plane_ok dev dma i planes) ps \<Longrightarrow>
   map_planes dev dma i planes ps cap w =
     (None, fold (map_plane_cap dev dma i planes) ps cap,
      w\<lparr>trace := trace w @ concat (map (map_plane_events dev dma (v4l2_fd cap) i planes) ps)\<rparr>)"
  by (induction ps arbitrary: cap w) (simp_all add: map_plane_ok)

lemma map_buffer_ok:
  "buffer_ok dev dma (num_buf cap) (num_planes cap) i \<Longrightarrow>
   map_buffer dev dma i cap w =
     (None, map_buffer_cap dev dma i cap,
      w\<lparr>trace := trace w @ map_buffer_events dev dma (v4l2_fd cap) (num_buf cap) (num_planes cap) i\<rparr>)"
  by (simp add: map_buffer_def buffer_ok_def map_buffer_cap_def map_buffer_events_def buffer_planes_def
      map_planes_ok emit_def Let_def case_prod_beta)

lemma map_buffer_cap_fields [simp]:
  "num_buf (map_buffer_cap dev dma i cap) = num_buf cap"
  "num_planes (map_buffer_cap dev dma i cap) = num_planes cap"
  "v4l2_fd (map_buffer_cap dev dma i cap) = v4l2_fd cap"
  by (simp_all add: map_buffer_cap_def)

lemma wf_cap_map_buffer_cap [simp]: "wf_cap cap \<Longrightarrow> wf_cap (map_buffer_cap dev dma i cap)"
  by (simp add: map_buffer_cap_def)

lemma fold_map_buffer_cap_fields [simp]:
  "num_buf (fold (map_buffer_cap dev dma) js cap) = num_buf cap"
  "num_planes (fold (map_buffer_cap dev dma) js cap) = num_planes cap"
  "v4l2_fd (fold (map_buffer_cap dev dma) js cap) = v4l2_fd cap"
  by (induction js arbitrary: cap; simp)+

lemma wf_cap_fold_map_buffer_cap [simp]:
  "wf_cap cap \<Longrightarrow> wf_cap (fold (map_buffer_cap dev dma) js cap)"
  by (induction js arbitrary: cap) simp_all

lemma map_buffers_loop_ok:
  "list_all (buffer_ok dev dma (num_buf cap) (num_planes cap)) js \<Longrightarrow>
   map_buffers_loop dev dma js cap w =
     (None, fold (map_buffer_cap dev dma) js cap,
      w\<lparr>trace := trace w @
         concat (map (map_buffer_events dev dma (v4l2_fd cap) (num_buf cap) (num_planes cap)) js)\<rparr>)"
proof (induction js arbitrary: cap w)
  case Nil
  show ?case by simp
next
  case (Cons j js)
  from Cons.prems show ?case
    by (simp add: map_buffer_ok Cons.IH)
qed

lemma map_buffers_ok:
  "list_all (buffer_ok dev dma (num_buf cap) (num_planes cap)) [0..<nat (num_buf cap)] \<Longrightarrow>
   map_buffers dev cap dma w =
     (0, fold (map_buffer_cap dev dma) [0..<nat (num_buf cap)] cap,
      w\<lparr>trace := trace w @
         concat (map (map_buffer_events dev dma (v4l2_fd cap) (num_buf cap) (num_planes cap))
           [0..<nat (num_buf cap)])\<rparr>)"
  by (simp add: map_buffers_def map_buffers_loop_ok)

lemma buf_addr_set_other:
  "(j, q) \<noteq> (i, p) \<Longrightarrow> buf_addr (set_addr i p a cap) j q = buf_addr cap j q"
  by (cases "i < length (buffers cap)"; cases "j = i")
    (auto simp add: setter_defs getter_defs nth_list_update list_update_beyond not_less)

lemma buf_length_set_other:
  "(j, q) \<noteq> (i, p) \<Longrightarrow> buf_length (set_length_v i p n cap) j q = buf_length cap j q"
  by (cases "i < length (buffers cap)"; cases "j = i")
    (auto simp add: setter_defs getter_defs nth_list_update list_update_beyond not_less)

lemma buf_index_set_other:
  "j \<noteq> i \<Longrightarrow> v4l2buf_index (buffers (set_v4l2buf_index i k cap) ! j) = v4l2buf_index (buffers cap ! j)"
  by (cases "i < length (buffers cap)") (auto simp add: setter_defs nth_list_update list_update_beyond not_less)

text \<open>What a mapped plane and a mapped buffer hold.\<close>

lemma map_plane_cap_other:
  "(j, q) \<noteq> (i, p) \<Longrightarrow> buf_addr (map_plane_cap dev dma i planes p cap) j q = buf_addr cap j q"
  "(j, q) \<noteq> (i, p) \<Longrightarrow> buf_length (map_plane_cap dev dma i planes p cap) j q = buf_length cap j q"
  "(j, q) \<noteq> (i, p) \<Longrightarrow> buf_dma_fd (map_plane_cap dev dma i planes p cap) j q = buf_dma_fd cap j q"
  "v4l2buf_index (buffers (map_plane_cap dev dma i planes p cap) ! j) = v4l2buf_index (buffers cap ! j)"
  by (simp_all add: map_plane_cap_def Let_def buf_addr_set_other buf_length_set_other buf_dma_fd_set_other)

lemma map_plane_cap_same:
  assumes "wf_cap cap" "i < VIDEO_MAX_FRAME" "p < VIDEO_MAX_PLANES"
  shows "buf_addr (map_plane_cap dev dma i planes p cap) i p = plane_map_addr dev planes p"
    "buf_length (map_plane_cap dev dma i planes p cap) i p = plane_length (planes p)"
    "buf_dma_fd (map_plane_cap dev dma i planes p cap) i p =
       (if dma then fst (snd (dev_expbuf dev i p)) else buf_dma_fd cap i p)"
  using assms by (simp_all add: map_plane_cap_def Let_def buf_addr_set buf_length_set buf_dma_fd_set)

lemma fold_map_plane_cap_other:
  "j \<noteq> i \<or> q \<notin> set ps \<Longrightarrow> buf_addr (fold (map_plane_cap dev dma i planes) ps cap) j q = buf_addr cap j q"
  "j \<noteq> i \<or> q \<notin> set ps \<Longrightarrow> buf_length (fold (map_plane_cap dev dma i planes) ps cap) j q = buf_length cap j q"
  "j \<noteq> i \<or> q \<notin> set ps \<Longrightarrow> buf_dma_fd (fold (map_plane_cap dev dma i planes) ps cap) j q = buf_dma_fd cap j q"
  "v4l2buf_index (buffers (fold (map_plane_cap dev dma i planes) ps cap) ! j) = v4l2buf_index (buffers cap ! j)"
  by (induction ps arbitrary: cap; auto simp add: map_plane_cap_other)+

lemma fold_map_plane_cap_same:
  assumes "wf_cap cap" "i < VIDEO_MAX_FRAME" "\<forall>p\<in>set ps. p < VIDEO_MAX_PLANES" "distinct ps" "q \<in> set ps"
  shows "plane_mapped dev dma i planes (buf_dma_fd cap i q) q (fold (map_plane_cap dev dma i planes) ps cap)"
  using assms
proof (induction ps arbitrary: cap)
  case Nil
  then show ?case by simp
next
  case (Cons p ps)
  show ?case
  proof (cases "q = p")
    case True
    then have "q \<notin> set ps" using Cons.prems by simp
    then show ?thesis
      using Cons.prems True
      by (simp add: plane_mapped_def fold_map_plane_cap_other map_plane_cap_same)
  next
    case False
    then have "plane_mapped dev dma i planes (buf_dma_fd (map_plane_cap dev dma i planes p cap) i q) q
        (fold (map_plane_cap dev dma i planes) ps (map_plane_cap dev dma i planes p cap))"
      using Cons.prems by (intro Cons.IH) simp_all
    with False show ?thesis by (simp add: map_plane_cap_other)
  qed
qed

lemma map_buffer_cap_other:
  "j \<noteq> i \<Longrightarrow> buf_addr (map_buffer_cap dev dma i cap) j q = buf_addr cap j q"
  "j \<noteq> i \<Longrightarrow> buf_length (map_buffer_cap dev dma i cap) j q = buf_length cap j q"
  "j \<noteq> i \<Longrightarrow> buf_dma_fd (map_buffer_cap dev dma i cap) j q = buf_dma_fd cap j q"
  "j \<noteq> i \<Longrightarrow> v4l2buf_index (buffers (map_buffer_cap dev dma i cap) ! j) = v4l2buf_index (buffers cap ! j)"
  by (simp_all add: map_buffer_cap_def fold_map_plane_cap_other buf_index_set_other)

lemma map_buffer_cap_same:
  assumes "wf_cap cap" "i < VIDEO_MAX_FRAME" "nat (num_planes cap) \<le> VIDEO_MAX_PLANES"
  shows "buffer_mapped dev dma cap i (map_buffer_cap dev dma i cap)"
proof -
  have len: "i < length (buffers cap)" using assms wf_capD [of cap i] by simp
  have idx: "v4l2buf_index (buffers (map_buffer_cap dev dma i cap) ! i) = i"
    using len by (simp add: map_buffer_cap_def fold_map_plane_cap_other buf_index_set)
  have pl: "plane_mapped dev dma i (buffer_planes dev (num_buf cap) i) (buf_dma_fd cap i q) q (map_buffer_cap dev dma i cap)"
    if "q < nat (num_planes cap)" for q
  proof -
    have "plane_mapped dev dma i (buffer_planes dev (num_buf cap) i) (buf_dma_fd (set_v4l2buf_index i i cap) i q) q
        (fold (map_plane_cap dev dma i (buffer_planes dev (num_buf cap) i)) [0..<nat (num_planes cap)] (set_v4l2buf_index i i cap))"
      using assms that by (intro fold_map_plane_cap_same) simp_all
    then show ?thesis by (simp add: map_buffer_cap_def)
  qed
  show ?thesis using idx pl by (simp add: buffer_mapped_def)
qed

lemma fold_map_buffer_cap_other:
  "j \<notin> set js \<Longrightarrow> buf_addr (fold (map_buffer_cap dev dma) js cap) j q = buf_addr cap j q"
  "j \<notin> set js \<Longrightarrow> buf_length (fold (map_buffer_cap dev dma) js cap) j q = buf_length cap j q"
  "j \<notin> set js \<Longrightarrow> buf_dma_fd (fold (map_buffer_cap dev dma) js cap) j q = buf_dma_fd cap j q"
  "j \<notin> set js \<Longrightarrow> v4l2buf_index (buffers (fold (map_buffer_cap dev dma) js cap) ! j) = v4l2buf_index (buffers cap ! j)"
  by (induction js arbitrary: cap; auto simp add: map_buffer_cap_other)+

lemma buffer_mapped_cong:
  assumes "num_buf c0 = num_buf cap0" "num_planes c0 = num_planes cap0" "\<And>q. buf_dma_fd c0 i q = buf_dma_fd cap0 i q"
  shows "buffer_mapped dev dma c0 i c = buffer_mapped dev dma cap0 i c"
  using assms by (simp add: buffer_mapped_def)

lemma buffer_mapped_frame:
  assumes "buffer_mapped dev dma cap0 i c"
    and "\<And>q. buf_addr c' i q = buf_addr c i q" "\<And>q. buf_length c' i q = buf_length c i q"
    and "\<And>q. buf_dma_fd c' i q = buf_dma_fd c i q"
    and "v4l2buf_index (buffers c' ! i) = v4l2buf_index (buffers c ! i)"
  shows "buffer_mapped dev dma cap0 i c'"
  using assms by (simp add: buffer_mapped_def plane_mapped_def)

lemma fold_map_buffer_cap_same:
  assumes "wf_cap cap" "\<forall>i\<in>set js. i < VIDEO_MAX_FRAME" "nat (num_planes cap) \<le> VIDEO_MAX_PLANES"
    "distinct js" "i \<in> set js"
  shows "buffer_mapped dev dma cap i (fold (map_buffer_cap dev dma) js cap)"
  using assms
proof (induction js arbitrary: cap)
  case Nil
  then show ?case by simp
next
  case (Cons j js)
  let ?c = "map_buffer_cap dev dma j cap"
  show ?case
  proof (cases "i = j")
    case True
    then have notin: "i \<notin> set js" using Cons.prems by simp
    have "buffer_mapped dev dma cap i ?c"
      using Cons.prems True by (simp add: map_buffer_cap_same)
    then have "buffer_mapped dev dma cap i (fold (map_buffer_cap dev dma) js ?c)"
      by (rule buffer_mapped_frame) (simp_all add: fold_map_buffer_cap_other notin)
    then show ?thesis by simp
  next
    case False
    have "buffer_mapped dev dma ?c i (fold (map_buffer_cap dev dma) js ?c)"
      using Cons.prems False by (intro Cons.IH) simp_all
    moreover have "buffer_mapped dev dma ?c i = buffer_mapped dev dma cap i"
      using False by (intro ext buffer_mapped_cong) (simp_all add: map_buffer_cap_other)
    ultimately show ?thesis by simp
  qed
qed

text \<open>The descriptors after their initialisation to \<open>-1\<close>.\<close>

lemma fold_set_fd_fields [simp]:
  "num_buf (fold (\<lambda>p. set_dma_buf_fd i p v) ps cap) = num_buf cap"
  "num_planes (fold (\<lambda>p. set_dma_buf_fd i p v) ps cap) = num_planes cap"
  "v4l2_fd (fold (\<lambda>p. set_dma_buf_fd i p v) ps cap) = v4l2_fd cap"
  "buf_addr (fold (\<lambda>p. set_dma_buf_fd i p v) ps cap) j q = buf_addr cap j q"
  "buf_length (fold (\<lambda>p. set_dma_buf_fd i p v) ps cap) j q = buf_length cap j q"
  by (induction ps arbitrary: cap; simp)+

lemma wf_cap_fold_set_fd [simp]: "wf_cap cap \<Longrightarrow> wf_cap (fold (\<lambda>p. set_dma_buf_fd i p v) ps cap)"
  by (induction ps arbitrary: cap) simp_all

lemma fold_set_fd_other:
  "j \<noteq> i \<or> q \<notin> set ps \<Longrightarrow> buf_dma_fd (fold (\<lambda>p. set_dma_buf_fd i p v) ps cap) j q = buf_dma_fd cap j q"
  by (induction ps arbitrary: cap) (auto simp add: buf_dma_fd_set_other)

lemma fold_set_fd_same:
  "wf_cap cap \<Longrightarrow> i < VIDEO_MAX_FRAME \<Longrightarrow> \<forall>p\<in>set ps. p < VIDEO_MAX_PLANES \<Longrightarrow> q \<in> set ps \<Longrightarrow>
   buf_dma_fd (fold (\<lambda>p. set_dma_buf_fd i p v) ps cap) i q = v"
proof (induction ps arbitrary: cap)
  case Nil
  then show ?case by simp
next
  case (Cons p ps)
  show ?case
  proof (cases "q \<in> set ps")
    case True
    with Cons show ?thesis by simp
  next
    case False
    with Cons.prems have "q = p" by simp
    with False Cons.prems show ?thesis by (simp add: fold_set_fd_other buf_dma_fd_set)
  qed
qed

lemma init_fds_fields [simp]:
  "num_buf (init_fds js cap) = num_buf cap"
  "num_planes (init_fds js cap) = num_planes cap"
  "v4l2_fd (init_fds js cap) = v4l2_fd cap"
  "buf_addr (init_fds js cap) j q = buf_addr cap j q"
  "buf_length (init_fds js cap) j q = buf_length cap j q"
  by (induction js arbitrary: cap; simp)+

lemma wf_cap_init_fds [simp]: "wf_cap cap \<Longrightarrow> wf_cap (init_fds js cap)"
  by (induction js arbitrary: cap) simp_all

lemma init_fds_other:
  "j \<notin> set js \<Longrightarrow> buf_dma_fd (init_fds js cap) j q = buf_dma_fd cap j q"
  by (induction js arbitrary: cap) (auto simp add: fold_set_fd_other)

lemma init_fds_same:
  "wf_cap cap \<Longrightarrow> \<forall>i\<in>set js. i < VIDEO_MAX_FRAME \<Longrightarrow> nat (num_planes cap) \<le> VIDEO_MAX_PLANES \<Longrightarrow>
   j \<in> set js \<Longrightarrow> q < nat (num_planes cap) \<Longrightarrow> buf_dma_fd (init_fds js cap) j q = - 1"
proof (induction js arbitrary: cap)
  case Nil
  then show ?case by simp
next
  case (Cons i js)
  let ?c = "fold (\<lambda>p. set_dma_buf_fd i p (- 1)) [0..<nat (num_planes cap)] cap"
  show ?case
  proof (cases "j \<in> set js")
    case True
    with Cons.prems show ?thesis by (simp add: Cons.IH)
  next
    case False
    with Cons.prems have ji: "j = i" by simp
    have "buf_dma_fd (init_fds js ?c) j q = buf_dma_fd ?c j q"
      using False by (rule init_fds_other)
    also have "\<dots> = - 1"
      using Cons.prems ji by (simp add: fold_set_fd_same)
    finally show ?thesis by simp
  qed
qed

subsection \<open>The session\<close>

lemma capture_display_yuv_append:
  "capture_display_yuv dev cap pre w = (None, w1) \<Longrightarrow>
   capture_display_yuv dev cap (pre @ rest) w = capture_loop cap 0 rest w1"
  by (auto simp add: capture_display_yuv_def Let_def capture_loop_append split: if_splits)


lemma capture_setup_not_running: "fst (capture_setup dev cap opt w) \<noteq> Running"
  by (auto simp add: capture_setup_def Let_def capture_shutdown_eq case_prod_beta)

lemma capture_display_yuv_None_signal:
  "capture_display_yuv dev cap pre w = (None, w1) \<Longrightarrow> signal_quit w1 = 0"
  by (auto simp add: capture_display_yuv_def Let_def capture_loop_None_signal split: if_splits)

lemma session_runningD:
  assumes "capture_and_display dev cap opt pre w = (Running, cap1, w1)"
  shows "\<exists>w0. capture_display_yuv dev cap1 pre w0 = (None, w1) \<and>
    (\<forall>script. capture_and_display dev cap opt script w =
      (case capture_display_yuv dev cap1 script w0 of
         (None, w2) \<Rightarrow> (Running, cap1, w2)
       | (Some r, w2) \<Rightarrow>
          (Returned r, fold (\<lambda>i c. fold (close_plane i) [0..<nat (num_planes c)] c) [0..<nat (num_buf cap1)] cap1,
           w2\<lparr>trace := trace w2 @ teardown_events dev cap1\<rparr>)))"
proof -
  obtain fd wa where gd: "get_device dev (dev_name opt) w = (fd, wa)"
    by (cases "get_device dev (dev_name opt) w")
  obtain sfd wb where gs: "get_subdevice dev (subdev_name opt) wa = (sfd, wb)"
    by (cases "get_subdevice dev (subdev_name opt) wa")
  let ?cap3 = "(set_test_state 0 (set_focus_state AUTO_FOCUS_ENABLED cap))\<lparr>v4l2_fd := fd, v4l2_subdev_fd := sfd\<rparr>"
  obtain out cap4 wc where cs: "capture_setup dev ?cap3 opt wb = (out, cap4, wc)"
    by (cases "capture_setup dev ?cap3 opt wb")
  obtain r wd where cd: "capture_display_yuv dev cap4 pre (emit (Sigaction SIGINT) wc) = (r, wd)"
    by (cases "capture_display_yuv dev cap4 pre (emit (Sigaction SIGINT) wc)")
  have nr: "out \<noteq> Running"
    using capture_setup_not_running [of dev ?cap3 opt wb] cs by simp
  from assms gd gs cs cd nr have facts: "\<not> fd < 0" "\<not> sfd < 0" "out = Returned 0" "r = None" "cap1 = cap4" "w1 = wd"
    by (auto simp add: capture_and_display_def Let_def capture_shutdown_eq
        split: if_splits outcome.splits option.splits)
  have 1: "capture_display_yuv dev cap1 pre (emit (Sigaction SIGINT) wc) = (None, w1)"
    using cd facts by simp
  have 2: "capture_and_display dev cap opt script w =
      (case capture_display_yuv dev cap1 script (emit (Sigaction SIGINT) wc) of
         (None, w2) \<Rightarrow> (Running, cap1, w2)
       | (Some r, w2) \<Rightarrow>
          (Returned r, fold (\<lambda>i c. fold (close_plane i) [0..<nat (num_planes c)] c) [0..<nat (num_buf cap1)] cap1,
           w2\<lparr>trace := trace w2 @ teardown_events dev cap1\<rparr>))" for script
    using gd gs cs facts
    by (simp add: capture_and_display_def Let_def capture_shutdown_eq split: prod.splits option.splits)
  from 1 2 show ?thesis by blast
qed

lemma session_running_signal:
  assumes "capture_and_display dev cap opt pre w = (Running, cap1, w1)"
  shows "signal_quit w1 = 0"
proof -
  from session_runningD [OF assms] obtain w0 where 1: "capture_display_yuv dev cap1 pre w0 = (None, w1)"
    by blast
  then show ?thesis by (rule capture_display_yuv_None_signal)
qed

lemma session_running_extend:
  assumes "capture_and_display dev cap opt pre w = (Running, cap1, w1)"
  shows "capture_and_display dev cap opt (pre @ rest) w =
     (case capture_loop cap1 0 rest w1 of
        (None, w2) \<Rightarrow> (Running, cap1, w2)
      | (Some r, w2) \<Rightarrow>
          (Returned r, fold (\<lambda>i c. fold (close_plane i) [0..<nat (num_planes c)] c) [0..<nat (num_buf cap1)] cap1,
           w2\<lparr>trace := trace w2 @ teardown_events dev cap1\<rparr>))"
proof -
  from session_runningD [OF assms] obtain w0 where 1: "capture_display_yuv dev cap1 pre w0 = (None, w1)"
    and 2: "\<And>script. capture_and_display dev cap opt script w =
      (case capture_display_yuv dev cap1 script w0 of
         (None, w2) \<Rightarrow> (Running, cap1, w2)
       | (Some r, w2) \<Rightarrow>
          (Returned r, fold (\<lambda>i c. fold (close_plane i) [0..<nat (num_planes c)] c) [0..<nat (num_buf cap1)] cap1,
           w2\<lparr>trace := trace w2 @ teardown_events dev cap1\<rparr>))"
    by blast
  show ?thesis
    by (simp only: 2 capture_display_yuv_append [OF 1])
qed



lemma queue_buffers_loop_ok:
  "\<forall>i\<in>set js. dev_qbuf dev (v4l2buf_index (bufs ! i)) = 0 \<Longrightarrow>
   queue_buffers_loop dev fd bufs js 0 w =
     (0, w\<lparr>trace := trace w @ map (\<lambda>i. Ioctl fd (VIDIOC_QBUF (v4l2buf_index (bufs ! i))) 0) js\<rparr>)"
  by (induction js arbitrary: w) (simp_all add: Let_def emit_def)

lemma alloc_cap_fields [simp]:
  "num_buf (alloc_cap cap M) = sint M" "num_planes (alloc_cap cap M) = 2"
  "v4l2_fd (alloc_cap cap M) = v4l2_fd cap"
  by (simp_all add: alloc_cap_def)

lemma wf_cap_alloc_cap [simp]: "wf_cap cap \<Longrightarrow> wf_cap (alloc_cap cap M)"
  by (simp add: alloc_cap_def)

lemma setup_cap_fields [simp]:
  "num_buf (setup_cap dev dma cap M) = sint M" "num_planes (setup_cap dev dma cap M) = 2"
  "v4l2_fd (setup_cap dev dma cap M) = v4l2_fd cap"
  by (simp_all add: setup_cap_def)

lemma wf_cap_setup_cap [simp]: "wf_cap cap \<Longrightarrow> wf_cap (setup_cap dev dma cap M)"
  by (simp add: setup_cap_def)

lemma setup_cap_mapped:
  assumes "wf_cap cap" "nat (sint M) \<le> VIDEO_MAX_FRAME" "i < nat (sint M)"
  shows "buffer_mapped dev dma (alloc_cap cap M) i (setup_cap dev dma cap M)"
  unfolding setup_cap_def
  using assms by (intro fold_map_buffer_cap_same) (simp_all add: VIDEO_MAX_PLANES_def)

lemma alloc_cap_fd:
  assumes "wf_cap cap" "nat (sint M) \<le> VIDEO_MAX_FRAME" "i < nat (sint M)" "p < 2"
  shows "buf_dma_fd (alloc_cap cap M) i p = - 1"
  unfolding alloc_cap_def
  using assms by (intro init_fds_same) (simp_all add: VIDEO_MAX_PLANES_def)

lemma capture_setup_ok:
  assumes fmt: "0 \<le> fst (dev_s_fmt dev)"
    and req: "0 \<le> fst (dev_reqbufs dev (word_of_int (buffer_count opt)))"
    and M: "M = fst (snd (dev_reqbufs dev (word_of_int (buffer_count opt))))"
    and ok: "list_all (buffer_ok dev (dma_export opt \<noteq> 0) (sint M) 2) [0..<nat (sint M)]"
    and q: "\<forall>i < nat (sint M). dev_qbuf dev i = 0"
    and wf: "wf_cap cap" and bound: "nat (sint M) \<le> VIDEO_MAX_FRAME"
  shows "capture_setup dev cap opt w =
     (Returned (dev_streamon dev), setup_cap dev (dma_export opt \<noteq> 0) cap M,
      w\<lparr>trace := trace w @ setup_events dev opt (v4l2_fd cap)\<rparr>)"
proof -
  let ?dma = "dma_export opt \<noteq> 0"
  let ?c3 = "alloc_cap cap M"
  let ?c4 = "setup_cap dev ?dma cap M"
  have mb: "map_buffers dev ?c3 ?dma w' =
      (0, ?c4, w'\<lparr>trace := trace w' @
         concat (map (map_buffer_events dev ?dma (v4l2_fd cap) (sint M) 2) [0..<nat (sint M)])\<rparr>)" for w'
    using map_buffers_ok [of dev ?dma ?c3 w'] ok by (simp add: setup_cap_def)
  have idx: "v4l2buf_index (buffers ?c4 ! i) = i" if "i < nat (sint M)" for i
    using setup_cap_mapped [OF wf bound that, of dev ?dma] by (simp add: buffer_mapped_def)
  have qb: "queue_buffers dev (v4l2_fd cap) (sint M) (buffers ?c4) w' =
      (0, w'\<lparr>trace := trace w' @ map (\<lambda>i. Ioctl (v4l2_fd cap) (VIDIOC_QBUF i) 0) [0..<nat (sint M)]\<rparr>)" for w'
  proof -
    have "queue_buffers_loop dev (v4l2_fd cap) (buffers ?c4) [0..<nat (sint M)] 0 w' =
      (0, w'\<lparr>trace := trace w' @
         map (\<lambda>i. Ioctl (v4l2_fd cap) (VIDIOC_QBUF (v4l2buf_index (buffers ?c4 ! i))) 0) [0..<nat (sint M)]\<rparr>)"
      using q idx by (intro queue_buffers_loop_ok) simp
    moreover have "map (\<lambda>i. Ioctl (v4l2_fd cap) (VIDIOC_QBUF (v4l2buf_index (buffers ?c4 ! i))) 0) [0..<nat (sint M)] =
       map (\<lambda>i. Ioctl (v4l2_fd cap) (VIDIOC_QBUF i) 0) [0..<nat (sint M)]"
      using idx by (intro map_cong refl) simp
    ultimately show ?thesis by (simp add: queue_buffers_def)
  qed
  have c3: "init_fds [0..<nat (sint M)]
       (cap\<lparr>num_planes := 2, buf_type := V4L2_BUF_TYPE_VIDEO_CAPTURE_MPLANE,
            memory := V4L2_MEMORY_MMAP, num_buf := sint M\<rparr>) = ?c3"
    by (simp add: alloc_cap_def)
  note Ms = M [symmetric]
  show ?thesis
    using fmt req
    by (simp add: capture_setup_def Let_def case_prod_beta Ms c3 mb qb start_stream_def emit_def
        setup_events_def)
qed

lemma capture_setup_succeeds:
  assumes "setup_succeeds dev opt" "wf_cap cap"
  shows "capture_setup dev cap opt w =
     (Returned (dev_streamon dev), setup_cap dev (dma_export opt \<noteq> 0) cap (granted_count dev opt),
      w\<lparr>trace := trace w @ setup_events dev opt (v4l2_fd cap)\<rparr>)"
  using assms
  by (intro capture_setup_ok) (simp_all add: setup_succeeds_def granted_count_def list_all_iff)

lemma get_device_ok:
  assumes "0 \<le> dev_open dev path" "and (snd (dev_querycap dev)) V4L2_CAP_VIDEO_CAPTURE_MPLANE \<noteq> 0"
    "and (snd (dev_querycap dev)) V4L2_CAP_STREAMING \<noteq> 0"
  shows "get_device dev path w =
     (dev_open dev path,
      w\<lparr>trace := trace w @ [Open path (dev_open dev path),
         Ioctl (dev_open dev path) VIDIOC_QUERYCAP (fst (dev_querycap dev))]\<rparr>)"
  using assms by (simp add: get_device_def Let_def emit_def case_prod_beta)

lemma get_subdevice_ok:
  assumes "0 \<le> dev_open dev path"
  shows "get_subdevice dev path w = (dev_open dev path, w\<lparr>trace := trace w @ [Open path (dev_open dev path)]\<rparr>)"
  using assms by (simp add: get_subdevice_def Let_def emit_def)

lemma wf_cap_app [simp]:
  "wf_cap (set_focus_state v cap) = wf_cap cap" "wf_cap (set_test_state v cap) = wf_cap cap"
  by (simp_all add: set_focus_state_def set_test_state_def)

lemma session_reaches_streaming:
  assumes "session_starts dev opt" "wf_cap cap" "signal_quit w = 0"
  shows "capture_and_display dev cap opt [] w =
     (Running, session_cap dev opt cap, w\<lparr>trace := trace w @ session_events dev opt cap\<rparr>)"
proof -
  let ?fd = "dev_open dev (dev_name opt)"
  let ?sfd = "dev_open dev (subdev_name opt)"
  let ?cap3 = "(set_test_state 0 (set_focus_state AUTO_FOCUS_ENABLED cap))\<lparr>v4l2_fd := ?fd, v4l2_subdev_fd := ?sfd\<rparr>"
  have wf3: "wf_cap ?cap3" using assms by simp
  have su: "setup_succeeds dev opt" and on: "dev_streamon dev = 0" and ds: "dev_display_setup dev = 0"
    and fd: "0 \<le> ?fd" and sfd: "0 \<le> ?sfd"
    using assms by (simp_all add: session_starts_def)
  have gd: "get_device dev (dev_name opt) w' =
     (?fd, w'\<lparr>trace := trace w' @ [Open (dev_name opt) ?fd, Ioctl ?fd VIDIOC_QUERYCAP (fst (dev_querycap dev))]\<rparr>)" for w'
    using assms by (intro get_device_ok) (simp_all add: session_starts_def)
  note cs = capture_setup_succeeds [OF su wf3]
  show ?thesis
    using fd sfd on ds assms(3)
    by (simp add: capture_and_display_def Let_def gd get_subdevice_ok cs capture_display_yuv_def emit_def
        session_cap_def session_events_def)
qed

lemma wf_cap_zeroed: "wf_cap cap_zeroed"
  by (simp add: wf_cap_def wf_buf_def cap_zeroed_def buf_zeroed_def list_all_iff)

lemma upt_4: "[0..<4] = [0, 1, 2, 3]"
  by (simp add: upt_rec)

lemma upt_2: "[0..<2] = [0, 1]"
  by (simp add: upt_rec)

lemma session_starts_dev_ok: "session_starts dev_ok opts_default"
  by (simp add: session_starts_def setup_succeeds_def granted_count_def dev_ok_def opts_default_def
      buffer_ok_def plane_ok_def plane_map_addr_def buffer_planes_def upt_4 upt_2
      V4L2_CAP_VIDEO_CAPTURE_MPLANE_def V4L2_CAP_STREAMING_def VIDEO_MAX_FRAME_def MAP_FAILED_def)

lemma dqbuf_count_append [simp]: "dqbuf_count (xs @ ys) = dqbuf_count xs + dqbuf_count ys"
  by (induction xs rule: dqbuf_count.induct) simp_all

lemma dqbuf_count_release_events [simp]: "dqbuf_count (release_events cap i p) = 0"
  by (simp add: release_events_def)

lemma dqbuf_count_concat_map: "(\<And>x. dqbuf_count (f x) = 0) \<Longrightarrow> dqbuf_count (concat (map f xs)) = 0"
  by (induction xs) simp_all

lemma dqbuf_count_teardown_events [simp]: "dqbuf_count (teardown_events dev cap) = 0"
  by (simp add: teardown_events_def dqbuf_count_concat_map)

lemma dqbuf_count_qbufs [simp]: "dqbuf_count (map (\<lambda>i. Ioctl fd (VIDIOC_QBUF i) r) xs) = 0"
  by (induction xs) simp_all

lemma dqbuf_count_setup_events [simp]: "dqbuf_count (setup_events dev opt fd) = 0"
  by (simp add: setup_events_def map_buffer_events_def map_plane_events_def
      dqbuf_count_concat_map Let_def)

lemma dqbuf_count_session_events [simp]: "dqbuf_count (session_events dev opt cap) = 0"
  by (simp add: session_events_def)

text \<open>One more pass of the loop in a session that is in the loop.\<close>

lemma session_pass:
  assumes run: "capture_and_display dev cap opt pre w = (Running, cap1, w1)"
  shows "capture_and_display dev cap opt (pre @ it # rest) w =
     (let w0 = (if sigint it then signal_exit SIGINT w1 else w1) in
      if sigint it then (Returned 0, close_all cap1, w0\<lparr>trace := trace w0 @ teardown_events dev cap1\<rparr>)
      else
        (case loop_body cap1 it w0 of
           (Returns r, w2) \<Rightarrow> (Returned r, close_all cap1, w2\<lparr>trace := trace w2 @ teardown_events dev cap1\<rparr>)
         | (Breaks, w2) \<Rightarrow> (Returned 0, close_all cap1, w2\<lparr>trace := trace w2 @ teardown_events dev cap1\<rparr>)
         | (Continues r, w2) \<Rightarrow>
             (case capture_loop cap1 r rest w2 of
                (None, w3) \<Rightarrow> (Running, cap1, w3)
              | (Some r', w3) \<Rightarrow>
                  (Returned r', close_all cap1, w3\<lparr>trace := trace w3 @ teardown_events dev cap1\<rparr>))))"
  using session_running_signal [OF run]
  by (simp add: session_running_extend [OF run] Let_def signal_exit_def
      split: prod.splits body_result.splits option.splits)

lemma running_dev_ok:
  "capture_and_display dev_ok cap_zeroed opts_default [] world_init =
     (Running, session_cap dev_ok opts_default cap_zeroed,
      world_init\<lparr>trace := trace world_init @ session_events dev_ok opts_default cap_zeroed\<rparr>)"
  by (rule session_reaches_streaming [OF session_starts_dev_ok wf_cap_zeroed]) (simp add: world_init_def)

lemma world_init_simps [simp]: "trace world_init = []" "signal_quit world_init = 0"
  by (simp_all add: world_init_def)

subsection \<open>Teardown called again, and what setup maps\<close>

lemma close_plane_neg_id: "buf_dma_fd c i p < 0 \<Longrightarrow> close_plane i p c = c"
  by (simp add: close_plane_def)

lemma fold_close_plane_neg_id:
  "\<forall>p\<in>set ps. buf_dma_fd c i p < 0 \<Longrightarrow> fold (close_plane i) ps c = c"
  by (induction ps) (simp_all add: close_plane_neg_id)

lemma close_all_neg_id:
  "\<forall>i\<in>set js. \<forall>p < nat (num_planes c). buf_dma_fd c i p < 0 \<Longrightarrow>
   fold (\<lambda>i c. fold (close_plane i) [0..<nat (num_planes c)] c) js c = c"
  by (induction js) (simp_all add: fold_close_plane_neg_id)

lemma release_events_neg: "buf_dma_fd c i p < 0 \<Longrightarrow> release_events c i p = munmap_events c i p"
  by (simp add: release_events_def munmap_events_def)

lemma munmap_events_cong:
  "buf_addr c i p = buf_addr cap i p \<Longrightarrow> buf_length c i p = buf_length cap i p \<Longrightarrow>
   munmap_events c i p = munmap_events cap i p"
  by (simp add: munmap_events_def)

lemma close_all_closed:
  assumes "wf_cap cap" "nat (num_buf cap) \<le> VIDEO_MAX_FRAME" "nat (num_planes cap) \<le> VIDEO_MAX_PLANES"
    "i < nat (num_buf cap)" "p < nat (num_planes cap)"
  shows "buf_dma_fd (close_all cap) i p < 0"
  using assms by (intro buf_dma_fd_close_all_same) simp_all


lemma setup_cap_views:
  assumes "wf_cap cap" "nat (sint M) \<le> VIDEO_MAX_FRAME" "i < nat (sint M)" "p < 2"
  shows "buf_addr (setup_cap dev dma cap M) i p = plane_map_addr dev (buffer_planes dev (sint M) i) p"
    and "buf_length (setup_cap dev dma cap M) i p = plane_length (buffer_planes dev (sint M) i p)"
    and "buf_dma_fd (setup_cap dev dma cap M) i p = (if dma then fst (snd (dev_expbuf dev i p)) else - 1)"
proof -
  have m: "buffer_mapped dev dma (alloc_cap cap M) i (setup_cap dev dma cap M)"
    using assms(1-3) by (rule setup_cap_mapped)
  have fd: "buf_dma_fd (alloc_cap cap M) i p = - 1"
    using assms by (rule alloc_cap_fd)
  from m assms(4) have "plane_mapped dev dma i (buffer_planes dev (sint M) i) (buf_dma_fd (alloc_cap cap M) i p) p
      (setup_cap dev dma cap M)"
    by (simp add: buffer_mapped_def)
  then have pm: "plane_mapped dev dma i (buffer_planes dev (sint M) i) (- 1) p (setup_cap dev dma cap M)"
    by (simp only: fd)
  from pm show "buf_addr (setup_cap dev dma cap M) i p = plane_map_addr dev (buffer_planes dev (sint M) i) p"
    and "buf_length (setup_cap dev dma cap M) i p = plane_length (buffer_planes dev (sint M) i p)"
    and "buf_dma_fd (setup_cap dev dma cap M) i p = (if dma then fst (snd (dev_expbuf dev i p)) else - 1)"
    by (simp_all add: plane_mapped_def)
qed

text \<open>Projections of the calls of setup and teardown.\<close>

lemma mmap_addrs_append [simp]: "mmap_addrs (xs @ ys) = mmap_addrs xs @ mmap_addrs ys"
  by (induction xs rule: mmap_addrs.induct) simp_all

lemma munmap_addrs_append [simp]: "munmap_addrs (xs @ ys) = munmap_addrs xs @ munmap_addrs ys"
  by (induction xs rule: munmap_addrs.induct) simp_all

lemma querybuf_indices_append [simp]: "querybuf_indices (xs @ ys) = querybuf_indices xs @ querybuf_indices ys"
  by (induction xs rule: querybuf_indices.induct) simp_all

lemma qbuf_indices_append [simp]: "qbuf_indices (xs @ ys) = qbuf_indices xs @ qbuf_indices ys"
  by (induction xs rule: qbuf_indices.induct) simp_all

lemma mmap_addrs_concat: "mmap_addrs (concat (map f xs)) = concat (map (\<lambda>x. mmap_addrs (f x)) xs)"
  by (induction xs) simp_all

lemma munmap_addrs_concat: "munmap_addrs (concat (map f xs)) = concat (map (\<lambda>x. munmap_addrs (f x)) xs)"
  by (induction xs) simp_all

lemma querybuf_indices_concat:
  "querybuf_indices (concat (map f xs)) = concat (map (\<lambda>x. querybuf_indices (f x)) xs)"
  by (induction xs) simp_all

lemma qbuf_indices_concat: "qbuf_indices (concat (map f xs)) = concat (map (\<lambda>x. qbuf_indices (f x)) xs)"
  by (induction xs) simp_all

lemma concat_map_Nil: "(\<And>x. f x = []) \<Longrightarrow> concat (map f xs) = []"
  by (induction xs) simp_all

lemma concat_map_single: "concat (map (\<lambda>x. [f x]) xs) = map f xs"
  by (induction xs) simp_all

lemma map_plane_events_proj [simp]:
  "mmap_addrs (map_plane_events dev dma fd i planes p) = [plane_map_addr dev planes p]"
  "munmap_addrs (map_plane_events dev dma fd i planes p) = []"
  "querybuf_indices (map_plane_events dev dma fd i planes p) = []"
  "qbuf_indices (map_plane_events dev dma fd i planes p) = []"
  by (simp_all add: map_plane_events_def)

lemma map_buffer_events_proj [simp]:
  "mmap_addrs (map_buffer_events dev dma fd nb np i) =
     map (plane_map_addr dev (buffer_planes dev nb i)) [0..<nat np]"
  "munmap_addrs (map_buffer_events dev dma fd nb np i) = []"
  "querybuf_indices (map_buffer_events dev dma fd nb np i) = [i]"
  "qbuf_indices (map_buffer_events dev dma fd nb np i) = []"
  by (simp_all add: map_buffer_events_def mmap_addrs_concat munmap_addrs_concat querybuf_indices_concat
      qbuf_indices_concat concat_map_single concat_map_Nil)

lemma qbufs_proj [simp]:
  "mmap_addrs (map (\<lambda>i. Ioctl fd (VIDIOC_QBUF i) r) xs) = []"
  "munmap_addrs (map (\<lambda>i. Ioctl fd (VIDIOC_QBUF i) r) xs) = []"
  "querybuf_indices (map (\<lambda>i. Ioctl fd (VIDIOC_QBUF i) r) xs) = []"
  "qbuf_indices (map (\<lambda>i. Ioctl fd (VIDIOC_QBUF i) r) xs) = xs"
  by (induction xs; simp)+


lemma release_events_proj [simp]:
  "mmap_addrs (release_events cap i p) = []"
  "munmap_addrs (release_events cap i p) = munmap_addrs (munmap_events cap i p)"
  by (simp_all add: release_events_def munmap_events_def)






lemma session_cap_simps [simp]:
  "num_buf (session_cap dev opt cap) = sint (granted_count dev opt)"
  "num_planes (session_cap dev opt cap) = 2"
  "v4l2_fd (session_cap dev opt cap) = dev_open dev (dev_name opt)"
  "wf_cap cap \<Longrightarrow> wf_cap (session_cap dev opt cap)"
  by (simp_all add: session_cap_def)

lemma session_cap_views:
  assumes "wf_cap cap" "nat (sint (granted_count dev opt)) \<le> VIDEO_MAX_FRAME"
    "i < nat (sint (granted_count dev opt))" "p < 2"
  shows "buf_addr (session_cap dev opt cap) i p =
      plane_map_addr dev (buffer_planes dev (sint (granted_count dev opt)) i) p"
    and "buf_length (session_cap dev opt cap) i p = plane_length (buffer_planes dev (sint (granted_count dev opt)) i p)"
    and "buf_dma_fd (session_cap dev opt cap) i p =
      (if dma_export opt \<noteq> 0 then fst (snd (dev_expbuf dev i p)) else - 1)"
  unfolding session_cap_def
  using assms by (simp_all add: setup_cap_views)

lemma granted_dev_ok [simp]: "granted_count dev_ok opts_default = 4"
  by (simp add: granted_count_def dev_ok_def opts_default_def)

lemma session_cap_dev_ok_views:
  assumes "i < 4" "p < 2"
  shows "buf_addr (session_cap dev_ok opts_default cap_zeroed) i p = word_of_nat (65536 + (8192 * i + 4096 * p))"
    and "buf_length (session_cap dev_ok opts_default cap_zeroed) i p = 4096"
    and "buf_dma_fd (session_cap dev_ok opts_default cap_zeroed) i p = - 1"
proof -
  have b: "nat (sint (granted_count dev_ok opts_default)) \<le> VIDEO_MAX_FRAME"
    by (simp add: VIDEO_MAX_FRAME_def)
  have i: "i < nat (sint (granted_count dev_ok opts_default))"
    using assms by simp
  note v = session_cap_views [OF wf_cap_zeroed b i assms(2)]
  show "buf_addr (session_cap dev_ok opts_default cap_zeroed) i p = word_of_nat (65536 + (8192 * i + 4096 * p))"
    by (simp only: v) (simp add: plane_map_addr_def buffer_planes_def dev_ok_def)
  show "buf_length (session_cap dev_ok opts_default cap_zeroed) i p = 4096"
    by (simp only: v) (simp add: buffer_planes_def dev_ok_def)
  show "buf_dma_fd (session_cap dev_ok opts_default cap_zeroed) i p = - 1"
    by (simp only: v) (simp add: opts_default_def)
qed

subsection \<open>A mapping failure on the third buffer\<close>

lemma getters_record_update:
  "buf_addr (cap\<lparr>num_buf := n\<rparr>) = buf_addr cap" "buf_addr (cap\<lparr>num_planes := m\<rparr>) = buf_addr cap"
  "buf_addr (cap\<lparr>buf_type := t\<rparr>) = buf_addr cap" "buf_addr (cap\<lparr>memory := t\<rparr>) = buf_addr cap"
  "buf_addr (cap\<lparr>v4l2_fd := fd\<rparr>) = buf_addr cap" "buf_addr (cap\<lparr>v4l2_subdev_fd := fd\<rparr>) = buf_addr cap"
  "buf_addr (cap\<lparr>app := a\<rparr>) = buf_addr cap"
  "buf_length (cap\<lparr>num_buf := n\<rparr>) = buf_length cap" "buf_length (cap\<lparr>num_planes := m\<rparr>) = buf_length cap"
  "buf_length (cap\<lparr>buf_type := t\<rparr>) = buf_length cap" "buf_length (cap\<lparr>memory := t\<rparr>) = buf_length cap"
  "buf_length (cap\<lparr>v4l2_fd := fd\<rparr>) = buf_length cap" "buf_length (cap\<lparr>v4l2_subdev_fd := fd\<rparr>) = buf_length cap"
  "buf_length (cap\<lparr>app := a\<rparr>) = buf_length cap"
  "buf_dma_fd (cap\<lparr>num_buf := n\<rparr>) = buf_dma_fd cap" "buf_dma_fd (cap\<lparr>num_planes := m\<rparr>) = buf_dma_fd cap"
  "buf_dma_fd (cap\<lparr>buf_type := t\<rparr>) = buf_dma_fd cap" "buf_dma_fd (cap\<lparr>memory := t\<rparr>) = buf_dma_fd cap"
  "buf_dma_fd (cap\<lparr>v4l2_fd := fd\<rparr>) = buf_dma_fd cap" "buf_dma_fd (cap\<lparr>v4l2_subdev_fd := fd\<rparr>) = buf_dma_fd cap"
  "buf_dma_fd (cap\<lparr>app := a\<rparr>) = buf_dma_fd cap"
  by (simp_all add: fun_eq_iff getter_defs)

lemma cap_zeroed_views:
  assumes "i < VIDEO_MAX_FRAME" "p < VIDEO_MAX_PLANES"
  shows "buf_addr cap_zeroed i p = 0" "buf_length cap_zeroed i p = 0" "buf_dma_fd cap_zeroed i p = 0"
  using assms by (simp_all add: getter_defs cap_zeroed_def buf_zeroed_def)

lemma alloc_cap_views:
  "buf_addr (alloc_cap cap M) i p = buf_addr cap i p"
  "buf_length (alloc_cap cap M) i p = buf_length cap i p"
  by (simp_all add: alloc_cap_def getters_record_update)

lemma map_buffer_cap_views:
  assumes "wf_cap cap" "i < VIDEO_MAX_FRAME" "nat (num_planes cap) \<le> VIDEO_MAX_PLANES" "p < nat (num_planes cap)"
  shows "buf_addr (map_buffer_cap dev dma i cap) i p = plane_map_addr dev (buffer_planes dev (num_buf cap) i) p"
    and "buf_length (map_buffer_cap dev dma i cap) i p = plane_length (buffer_planes dev (num_buf cap) i p)"
    and "buf_dma_fd (map_buffer_cap dev dma i cap) i p =
      (if dma then fst (snd (dev_expbuf dev i p)) else buf_dma_fd cap i p)"
proof -
  have "buffer_mapped dev dma cap i (map_buffer_cap dev dma i cap)"
    using assms(1-3) by (rule map_buffer_cap_same)
  with assms(4) have "plane_mapped dev dma i (buffer_planes dev (num_buf cap) i) (buf_dma_fd cap i p) p
      (map_buffer_cap dev dma i cap)"
    by (simp add: buffer_mapped_def)
  then show "buf_addr (map_buffer_cap dev dma i cap) i p = plane_map_addr dev (buffer_planes dev (num_buf cap) i) p"
    and "buf_length (map_buffer_cap dev dma i cap) i p = plane_length (buffer_planes dev (num_buf cap) i p)"
    and "buf_dma_fd (map_buffer_cap dev dma i cap) i p =
      (if dma then fst (snd (dev_expbuf dev i p)) else buf_dma_fd cap i p)"
    by (simp_all add: plane_mapped_def)
qed

lemma dev_mmap_fails_buf2_simps:
  "dev_s_fmt dev_mmap_fails_buf2 = (0, 0)"
  "dev_reqbufs dev_mmap_fails_buf2 n = (0, n, 0)"
  "dev_querybuf dev_mmap_fails_buf2 i len = (0, \<lambda>p. \<lparr>plane_length = 4096, mem_offset = 8192 * i + 4096 * p\<rparr>)"
  "dev_mmap dev_mmap_fails_buf2 l off = (if off = 16384 then (MAP_FAILED, 12) else (word_of_nat (65536 + off), 0))"
  "dev_streamoff dev_mmap_fails_buf2 = 0"
  "dev_open dev_mmap_fails_buf2 = dev_open dev_ok"
  "dev_querycap dev_mmap_fails_buf2 = dev_querycap dev_ok"
  by (simp_all add: dev_mmap_fails_buf2_def dev_ok_def)

lemma buffer_ok_mmap_fails:
  "buffer_ok dev_mmap_fails_buf2 False 4 2 0" "buffer_ok dev_mmap_fails_buf2 False 4 2 (Suc 0)"
  by (simp_all add: buffer_ok_def plane_ok_def plane_map_addr_def buffer_planes_def upt_2
      dev_mmap_fails_buf2_simps MAP_FAILED_def)

lemma map_buffer_2_fails:
  assumes "num_buf c = 4" "num_planes c = 2"
  shows "map_buffer dev_mmap_fails_buf2 False 2 c w =
    (Some (- 12), set_addr 2 0 MAP_FAILED (set_length_v 2 0 4096 (set_v4l2buf_index 2 2 c)),
     w\<lparr>trace := trace w @ [Ioctl (v4l2_fd c) (VIDIOC_QUERYBUF 2 4) 0, Mmap 4096 16384 MAP_FAILED]\<rparr>)"
  using assms
  by (simp add: map_buffer_def map_plane_def upt_2 dev_mmap_fails_buf2_simps emit_def Let_def)

lemma map_buffers_mmap_fails:
  "map_buffers dev_mmap_fails_buf2 (alloc_cap cap 4) False w =
     (- 12, cap_mmap_failed cap,
      w\<lparr>trace := trace w @
         map_buffer_events dev_mmap_fails_buf2 False (v4l2_fd cap) 4 2 0 @
         map_buffer_events dev_mmap_fails_buf2 False (v4l2_fd cap) 4 2 (Suc 0) @
         [Ioctl (v4l2_fd cap) (VIDIOC_QUERYBUF 2 4) 0, Mmap 4096 16384 MAP_FAILED]\<rparr>)"
  by (simp add: map_buffers_def upt_4 map_buffer_ok buffer_ok_mmap_fails map_buffer_2_fails
      cap_mmap_failed_def)

lemma wf_cap_mmap_failed [simp]: "wf_cap cap \<Longrightarrow> wf_cap (cap_mmap_failed cap)"
  by (simp add: cap_mmap_failed_def)

lemma cap_mmap_failed_fields [simp]:
  "num_buf (cap_mmap_failed cap) = 4" "num_planes (cap_mmap_failed cap) = 2"
  "v4l2_fd (cap_mmap_failed cap) = v4l2_fd cap"
  by (simp_all add: cap_mmap_failed_def)

lemma cap_mmap_failed_fd:
  assumes "wf_cap cap" "i < 4" "p < 2"
  shows "buf_dma_fd (cap_mmap_failed cap) i p = - 1"
proof -
  have a: "buf_dma_fd (alloc_cap cap 4) i p = - 1"
    using assms by (intro alloc_cap_fd) (simp_all add: VIDEO_MAX_FRAME_def)
  have "buf_dma_fd (cap_mmap_failed cap) i p = buf_dma_fd (alloc_cap cap 4) i p"
    (is "_ = buf_dma_fd ?a i p")
  proof -
    have 0: "buf_dma_fd (map_buffer_cap dev_mmap_fails_buf2 False 0 ?a) i p = buf_dma_fd ?a i p"
      using assms map_buffer_cap_views(3) [of ?a 0 p dev_mmap_fails_buf2 False]
      by (cases "i = 0") (simp_all add: map_buffer_cap_other VIDEO_MAX_FRAME_def VIDEO_MAX_PLANES_def)
    have 1: "buf_dma_fd (map_buffer_cap dev_mmap_fails_buf2 False (Suc 0)
          (map_buffer_cap dev_mmap_fails_buf2 False 0 ?a)) i p =
        buf_dma_fd (map_buffer_cap dev_mmap_fails_buf2 False 0 ?a) i p"
      using assms map_buffer_cap_views(3) [of "map_buffer_cap dev_mmap_fails_buf2 False 0 ?a" "Suc 0" p
          dev_mmap_fails_buf2 False]
      by (cases "i = Suc 0") (simp_all add: map_buffer_cap_other VIDEO_MAX_FRAME_def VIDEO_MAX_PLANES_def)
    show ?thesis by (simp add: cap_mmap_failed_def 0 1)
  qed
  with a show ?thesis by simp
qed

lemma cap_mmap_failed_addr:
  assumes wf: "wf_cap cap" and z: "\<forall>i < 4. \<forall>p < 2. buf_addr cap i p = 0"
  shows "buf_addr (cap_mmap_failed cap) 0 0 = 65536" "buf_addr (cap_mmap_failed cap) 0 (Suc 0) = 69632"
    "buf_addr (cap_mmap_failed cap) (Suc 0) 0 = 73728" "buf_addr (cap_mmap_failed cap) (Suc 0) (Suc 0) = 77824"
    "buf_addr (cap_mmap_failed cap) 2 0 = MAP_FAILED" "buf_addr (cap_mmap_failed cap) 2 (Suc 0) = 0"
    "buf_addr (cap_mmap_failed cap) 3 0 = 0" "buf_addr (cap_mmap_failed cap) 3 (Suc 0) = 0"
    "buf_length (cap_mmap_failed cap) 0 0 = 4096" "buf_length (cap_mmap_failed cap) 0 (Suc 0) = 4096"
    "buf_length (cap_mmap_failed cap) (Suc 0) 0 = 4096" "buf_length (cap_mmap_failed cap) (Suc 0) (Suc 0) = 4096"
  using wf z
  by (simp_all add: cap_mmap_failed_def buf_addr_set buf_length_set VIDEO_MAX_FRAME_def VIDEO_MAX_PLANES_def
      map_buffer_cap_other map_buffer_cap_views plane_map_addr_def buffer_planes_def
      dev_mmap_fails_buf2_simps alloc_cap_views)

lemma teardown_events_mmap_failed:
  assumes wf: "wf_cap cap" and z: "\<forall>i < 4. \<forall>p < 2. buf_addr cap i p = 0"
  shows "teardown_events dev_mmap_fails_buf2 (cap_mmap_failed cap) =
    [Ioctl (v4l2_fd cap) VIDIOC_STREAMOFF 0,
     Munmap 65536 4096, Munmap 69632 4096, Munmap 73728 4096, Munmap 77824 4096,
     Ioctl (v4l2_fd cap) (VIDIOC_REQBUFS 0) 0]"
  by (simp add: teardown_events_def upt_4 upt_2 release_events_def cap_mmap_failed_fd [OF wf]
      cap_mmap_failed_addr [OF wf z] dev_mmap_fails_buf2_simps MAP_FAILED_def)

lemma close_all_mmap_failed:
  assumes wf: "wf_cap cap"
  shows "close_all (cap_mmap_failed cap) = cap_mmap_failed cap"
  by (rule close_all_neg_id) (simp add: cap_mmap_failed_fd [OF wf])

lemma capture_setup_mmap_fails:
  assumes wf: "wf_cap cap"
  shows "capture_setup dev_mmap_fails_buf2 cap opts_default w =
     (Returned (- 12), cap_mmap_failed cap,
      w\<lparr>trace := trace w @
         [Ioctl (v4l2_fd cap) VIDIOC_S_FMT 0, Ioctl (v4l2_fd cap) (VIDIOC_REQBUFS 4) 0] @
         map_buffer_events dev_mmap_fails_buf2 False (v4l2_fd cap) 4 2 0 @
         map_buffer_events dev_mmap_fails_buf2 False (v4l2_fd cap) 4 2 (Suc 0) @
         [Ioctl (v4l2_fd cap) (VIDIOC_QUERYBUF 2 4) 0, Mmap 4096 16384 MAP_FAILED] @
         teardown_events dev_mmap_fails_buf2 (cap_mmap_failed cap)\<rparr>)"
proof -
  have c3: "init_fds [0..<4]
       (cap\<lparr>num_planes := 2, buf_type := V4L2_BUF_TYPE_VIDEO_CAPTURE_MPLANE,
            memory := V4L2_MEMORY_MMAP, num_buf := 4\<rparr>) = alloc_cap cap 4"
    by (simp add: alloc_cap_def)
  have cl: "fold (\<lambda>i c. fold (close_plane i) [0..<nat (num_planes c)] c) [0..<4] (cap_mmap_failed cap) =
      cap_mmap_failed cap"
    using close_all_mmap_failed [OF wf] by simp
  show ?thesis
    by (simp add: capture_setup_def Let_def dev_mmap_fails_buf2_simps opts_default_def c3
        map_buffers_mmap_fails capture_shutdown_eq cl emit_def)
qed

subsection \<open>The stages of setup\<close>



lemma opened_cap_fields [simp]:
  "v4l2_fd (opened_cap dev opt cap) = dev_open dev (dev_name opt)"
  "wf_cap (opened_cap dev opt cap) = wf_cap cap"
  by (simp_all add: opened_cap_def)







section \<open>Properties of the device control functions\<close>

lemmas focus_consts = IDLE_FOCUS_def AUTO_FOCUS_ENABLED_def SINGLE_FOCUS_START_def FOCUS_PAUSE_def

text \<open>
  On every pair for which the table of the specification defines a transition, the code
  stores the next state of the table and sends the control of the table, once.
\<close>

lemma focus_state_defined_pairs:
  assumes "spec_focus_table (app_focus_state (app cap)) cmd = Some (s', ctl)"
  shows "focus_state dev cap cmd w =
           (dev_s_ctrl dev (Some ctl), set_focus_state s' cap,
            emit (Ioctl (v4l2_subdev_fd cap) (VIDIOC_S_CTRL (Some ctl)) (dev_s_ctrl dev (Some ctl))) w)"
  using assms
  by (auto simp add: spec_focus_table_def focus_state_def focus_switch_def focus_consts
      set_focus_state_def Let_def split: if_splits)

text \<open>
  C1. The claim asks that on the two pairs without a transition (Idle with RequestPause,
  FocusPause with RequestPause) the state stays as it is and no control request is sent. The
  state does stay, but the code still makes one \<^verbatim>\<open>VIDIOC_S_CTRL\<close> request on the
  subdevice, and the control it passes was never assigned.
\<close>

theorem focus_state_undefined_pair_sends_request:
  assumes "app_focus_state (app cap) = IDLE_FOCUS \<or> app_focus_state (app cap) = FOCUS_PAUSE"
  shows "focus_state dev cap FOCUS_PAUSE w =
           (dev_s_ctrl dev None, cap,
            emit (Ioctl (v4l2_subdev_fd cap) (VIDIOC_S_CTRL None) (dev_s_ctrl dev None)) w)"
  using assms
  by (auto simp add: focus_state_def focus_switch_def focus_consts Let_def)

theorem focus_state_undefined_pair_sends_request_witness:
  "app_focus_state (app cap_zeroed) = IDLE_FOCUS \<and>
   focus_state dev_ok cap_zeroed FOCUS_PAUSE world_init =
     (0, cap_zeroed, \<lparr>signal_quit = 0, trace = [Ioctl 0 (VIDIOC_S_CTRL None) 0]\<rparr>)"
proof -
  have idle: "app_focus_state (app cap_zeroed) = IDLE_FOCUS"
    by (simp add: cap_zeroed_def IDLE_FOCUS_def)
  have "focus_state dev_ok cap_zeroed FOCUS_PAUSE world_init =
          (dev_s_ctrl dev_ok None, cap_zeroed,
           emit (Ioctl (v4l2_subdev_fd cap_zeroed) (VIDIOC_S_CTRL None) (dev_s_ctrl dev_ok None)) world_init)"
    using idle by (intro focus_state_undefined_pair_sends_request) simp
  then show ?thesis
    using idle by (simp add: dev_ok_def emit_def world_init_def cap_zeroed_def)
qed

text \<open>
  C7. The in-memory state is stored before the request is made and the reply has no part in
  it. For a transition of the table the focus state after the call is the next state of the
  table whatever the device answers, the answer is returned to the caller, and exactly one
  request is made. Every call of \<^verbatim>\<open>test_pattern\<close> stores the new test state (0 for a
  live request, otherwise the next of 1, 2, 3) and changes nothing else in the context,
  whatever the device answers; the value it sends is the test state already stored, and the
  answer is returned to the caller. The context after \<^verbatim>\<open>focus_state\<close> and after
  \<^verbatim>\<open>test_pattern\<close> is the same for any two devices, so a rejected request leaves it as
  an accepted one does.
\<close>

theorem control_state_committed_before_request:
  "(spec_focus_table (app_focus_state (app cap)) cmd = Some (s', ctl) \<longrightarrow>
      app (cap_of (focus_state dev cap cmd w)) = (app cap)\<lparr>app_focus_state := s'\<rparr> \<and>
      ret_of (focus_state dev cap cmd w) = dev_s_ctrl dev (Some ctl) \<and>
      trace (world_of (focus_state dev cap cmd w)) =
        trace w @ [Ioctl (v4l2_subdev_fd cap) (VIDIOC_S_CTRL (Some ctl)) (dev_s_ctrl dev (Some ctl))]) \<and>
   cap_of (focus_state dev cap cmd w) = cap_of (focus_state dev' cap cmd w) \<and>
   cap_of (test_pattern dev cap state w) = cap_of (test_pattern dev' cap state w) \<and>
   trace (world_of (test_pattern dev cap state w)) =
     trace w @ [Ioctl (v4l2_subdev_fd cap)
       (VIDIOC_S_CTRL (Some \<lparr>ctrl_id = V4L2_CID_TEST_PATTERN,
          ctrl_value = app_test_state (app (cap_of (test_pattern dev cap state w)))\<rparr>))
       (ret_of (test_pattern dev cap state w))] \<and>
   cap_of (test_pattern dev cap state w) =
     cap\<lparr>app := (app cap)\<lparr>app_test_state :=
       (if state = 0 then 0
        else if (app_test_state (app cap) + 1) smod 4 = 0 then 1
        else (app_test_state (app cap) + 1) smod 4)\<rparr>\<rparr> \<and>
   ret_of (test_pattern dev cap state w) =
     dev_s_ctrl dev (Some \<lparr>ctrl_id = V4L2_CID_TEST_PATTERN,
       ctrl_value = app_test_state (app (cap_of (test_pattern dev cap state w)))\<rparr>)"
proof -
  have a: "spec_focus_table (app_focus_state (app cap)) cmd = Some (s', ctl) \<longrightarrow>
      app (cap_of (focus_state dev cap cmd w)) = (app cap)\<lparr>app_focus_state := s'\<rparr> \<and>
      ret_of (focus_state dev cap cmd w) = dev_s_ctrl dev (Some ctl) \<and>
      trace (world_of (focus_state dev cap cmd w)) =
        trace w @ [Ioctl (v4l2_subdev_fd cap) (VIDIOC_S_CTRL (Some ctl)) (dev_s_ctrl dev (Some ctl))]"
    by (simp add: focus_state_defined_pairs cap_of_def ret_of_def world_of_def emit_def
        set_focus_state_def)
  have b: "cap_of (focus_state dev cap cmd w) = cap_of (focus_state dev' cap cmd w)"
    by (simp add: focus_state_def cap_of_def Let_def split: prod.splits)
  have c: "cap_of (test_pattern dev cap state w) = cap_of (test_pattern dev' cap state w)"
    by (simp add: test_pattern_def cap_of_def Let_def)
  have d: "trace (world_of (test_pattern dev cap state w)) =
     trace w @ [Ioctl (v4l2_subdev_fd cap)
       (VIDIOC_S_CTRL (Some \<lparr>ctrl_id = V4L2_CID_TEST_PATTERN,
          ctrl_value = app_test_state (app (cap_of (test_pattern dev cap state w)))\<rparr>))
       (ret_of (test_pattern dev cap state w))]"
    by (simp add: test_pattern_def cap_of_def world_of_def ret_of_def emit_def Let_def
        set_test_state_def)
  have e: "cap_of (test_pattern dev cap state w) =
     cap\<lparr>app := (app cap)\<lparr>app_test_state :=
       (if state = 0 then 0
        else if (app_test_state (app cap) + 1) smod 4 = 0 then 1
        else (app_test_state (app cap) + 1) smod 4)\<rparr>\<rparr>"
    by (simp add: test_pattern_def cap_of_def Let_def set_test_state_def)
  have f: "ret_of (test_pattern dev cap state w) =
     dev_s_ctrl dev (Some \<lparr>ctrl_id = V4L2_CID_TEST_PATTERN,
       ctrl_value = app_test_state (app (cap_of (test_pattern dev cap state w)))\<rparr>)"
    by (simp add: test_pattern_def cap_of_def ret_of_def Let_def set_test_state_def)
  show ?thesis
    by (rule conjI [OF a conjI [OF b conjI [OF c conjI [OF d conjI [OF e f]]]]])
qed

theorem control_state_committed_before_request_witness:
  "spec_focus_table (app_focus_state (app cap_zeroed)) AUTO_FOCUS_ENABLED =
     Some (AUTO_FOCUS_ENABLED, \<lparr>ctrl_id = V4L2_CID_FOCUS_AUTO, ctrl_value = 1\<rparr>) \<and>
   ret_of (focus_state dev_ctrl_rejected cap_zeroed AUTO_FOCUS_ENABLED world_init) = - 1 \<and>
   app_focus_state (app (cap_of (focus_state dev_ctrl_rejected cap_zeroed AUTO_FOCUS_ENABLED world_init))) =
     AUTO_FOCUS_ENABLED \<and>
   cap_of (focus_state dev_ctrl_rejected cap_zeroed AUTO_FOCUS_ENABLED world_init) =
     cap_of (focus_state dev_ok cap_zeroed AUTO_FOCUS_ENABLED world_init) \<and>
   ret_of (test_pattern dev_ctrl_rejected cap_zeroed 1 world_init) = - 1 \<and>
   app_test_state (app (cap_of (test_pattern dev_ctrl_rejected cap_zeroed 1 world_init))) = 1 \<and>
   trace (world_of (test_pattern dev_ctrl_rejected cap_zeroed 1 world_init)) =
     [Ioctl 0 (VIDIOC_S_CTRL (Some \<lparr>ctrl_id = V4L2_CID_TEST_PATTERN, ctrl_value = 1\<rparr>)) (- 1)]"
proof -
  have t: "spec_focus_table (app_focus_state (app cap_zeroed)) AUTO_FOCUS_ENABLED =
     Some (AUTO_FOCUS_ENABLED, \<lparr>ctrl_id = V4L2_CID_FOCUS_AUTO, ctrl_value = 1\<rparr>)"
    by (simp add: spec_focus_table_def cap_zeroed_def focus_consts Let_def)
  have r: "dev_s_ctrl dev_ctrl_rejected c = - 1" for c
    by (simp add: dev_ctrl_rejected_def)
  have z: "app_test_state (app cap_zeroed) = 0" "v4l2_subdev_fd cap_zeroed = 0"
    by (simp_all add: cap_zeroed_def)
  note k = control_state_committed_before_request [of cap_zeroed AUTO_FOCUS_ENABLED AUTO_FOCUS_ENABLED
      "\<lparr>ctrl_id = V4L2_CID_FOCUS_AUTO, ctrl_value = 1\<rparr>" dev_ctrl_rejected world_init dev_ok 1]
  from k t have f: "app (cap_of (focus_state dev_ctrl_rejected cap_zeroed AUTO_FOCUS_ENABLED world_init)) =
      (app cap_zeroed)\<lparr>app_focus_state := AUTO_FOCUS_ENABLED\<rparr>"
    by blast
  from k t have g: "ret_of (focus_state dev_ctrl_rejected cap_zeroed AUTO_FOCUS_ENABLED world_init) =
      dev_s_ctrl dev_ctrl_rejected (Some \<lparr>ctrl_id = V4L2_CID_FOCUS_AUTO, ctrl_value = 1\<rparr>)"
    by blast
  from k have h: "cap_of (focus_state dev_ctrl_rejected cap_zeroed AUTO_FOCUS_ENABLED world_init) =
     cap_of (focus_state dev_ok cap_zeroed AUTO_FOCUS_ENABLED world_init)"
    by blast
  from k have p: "cap_of (test_pattern dev_ctrl_rejected cap_zeroed 1 world_init) =
     cap_zeroed\<lparr>app := (app cap_zeroed)\<lparr>app_test_state :=
       (if (1::int) = 0 then 0
        else if (app_test_state (app cap_zeroed) + 1) smod 4 = 0 then 1
        else (app_test_state (app cap_zeroed) + 1) smod 4)\<rparr>\<rparr>"
    by blast
  have p1: "app_test_state (app (cap_of (test_pattern dev_ctrl_rejected cap_zeroed 1 world_init))) = 1"
    by (simp only: p) (simp add: z signed_modulo_int_def)
  from k have q: "ret_of (test_pattern dev_ctrl_rejected cap_zeroed 1 world_init) =
     dev_s_ctrl dev_ctrl_rejected (Some \<lparr>ctrl_id = V4L2_CID_TEST_PATTERN,
       ctrl_value = app_test_state (app (cap_of (test_pattern dev_ctrl_rejected cap_zeroed 1 world_init)))\<rparr>)"
    by blast
  from k have tr: "trace (world_of (test_pattern dev_ctrl_rejected cap_zeroed 1 world_init)) =
     trace world_init @ [Ioctl (v4l2_subdev_fd cap_zeroed)
       (VIDIOC_S_CTRL (Some \<lparr>ctrl_id = V4L2_CID_TEST_PATTERN,
          ctrl_value = app_test_state (app (cap_of (test_pattern dev_ctrl_rejected cap_zeroed 1 world_init)))\<rparr>))
       (ret_of (test_pattern dev_ctrl_rejected cap_zeroed 1 world_init))]"
    by blast
  have q1: "ret_of (test_pattern dev_ctrl_rejected cap_zeroed 1 world_init) = - 1"
    using q by (simp only: r)
  show ?thesis
  proof (intro conjI)
    show "spec_focus_table (app_focus_state (app cap_zeroed)) AUTO_FOCUS_ENABLED =
       Some (AUTO_FOCUS_ENABLED, \<lparr>ctrl_id = V4L2_CID_FOCUS_AUTO, ctrl_value = 1\<rparr>)"
      by (rule t)
    show "ret_of (focus_state dev_ctrl_rejected cap_zeroed AUTO_FOCUS_ENABLED world_init) = - 1"
      using g by (simp only: r)
    show "app_focus_state (app (cap_of (focus_state dev_ctrl_rejected cap_zeroed AUTO_FOCUS_ENABLED world_init))) =
       AUTO_FOCUS_ENABLED"
      by (simp only: f) simp
    show "cap_of (focus_state dev_ctrl_rejected cap_zeroed AUTO_FOCUS_ENABLED world_init) =
       cap_of (focus_state dev_ok cap_zeroed AUTO_FOCUS_ENABLED world_init)"
      by (rule h)
    show "ret_of (test_pattern dev_ctrl_rejected cap_zeroed 1 world_init) = - 1"
      by (rule q1)
    show "app_test_state (app (cap_of (test_pattern dev_ctrl_rejected cap_zeroed 1 world_init))) = 1"
      by (rule p1)
    show "trace (world_of (test_pattern dev_ctrl_rejected cap_zeroed 1 world_init)) =
       [Ioctl 0 (VIDIOC_S_CTRL (Some \<lparr>ctrl_id = V4L2_CID_TEST_PATTERN, ctrl_value = 1\<rparr>)) (- 1)]"
      by (simp only: tr p1 q1 z) simp
  qed
qed

text \<open>
  C8. From live view (0), four cycle requests, each with a nonzero argument, leave the test
  state at 1, 2, 3 and 1 again; a cycle request never leaves it at 0, from any state; a live
  request (argument 0) leaves it at 0, from any state.
\<close>

theorem test_pattern_cycles_1_2_3:
  "(app_test_state (app cap) = 0 \<and> s1 \<noteq> 0 \<and> s2 \<noteq> 0 \<and> s3 \<noteq> 0 \<and> s4 \<noteq> 0 \<longrightarrow>
      map (\<lambda>n. app_test_state (app (fst (test_pattern_seq dev (take n [s1, s2, s3, s4]) cap w))))
        [1, 2, 3, 4] = [1, 2, 3, 1]) \<and>
   (s \<noteq> 0 \<longrightarrow> app_test_state (app (cap_of (test_pattern dev cap' s w'))) \<noteq> 0) \<and>
   app_test_state (app (cap_of (test_pattern dev cap'' 0 w''))) = 0"
  by (simp add: test_pattern_def Let_def set_test_state_def cap_of_def signed_modulo_int_def)

theorem test_pattern_cycles_1_2_3_witness:
  "app_test_state (app cap_zeroed) = 0 \<and>
   map (\<lambda>n. app_test_state (app (fst (test_pattern_seq dev_ok (take n [1, 1, 1, 1]) cap_zeroed world_init))))
     [1, 2, 3, 4] = [1, 2, 3, 1] \<and>
   app_test_state (app (cap_of (test_pattern dev_ok (set_test_state 3 cap_zeroed) 1 world_init))) \<noteq> 0"
proof -
  have z: "app_test_state (app cap_zeroed) = 0"
    by (simp add: cap_zeroed_def)
  show ?thesis
    using z test_pattern_cycles_1_2_3 [of cap_zeroed 1 1 1 1 dev_ok world_init 1
        "set_test_state 3 cap_zeroed" world_init]
    by simp
qed

text \<open>
  C10. The key handler acts on an event only if it holds exactly one key. An event with no
  key or with several keys, and a single key other than h, a, f, p, t and l, leave the
  context (focus state and test state included) as it was and add no call to the trace.
\<close>

theorem do_key_event_ignores_other_events:
  assumes "num_keys \<noteq> 1 \<or>
           (keys \<noteq> [] \<and> keys ! 0 \<notin> {CHR ''h'', CHR ''a'', CHR ''f'', CHR ''p'', CHR ''t'', CHR ''l''})"
  shows "do_key_event dev keys num_keys cap w = (cap, w)"
  using assms by (auto simp add: do_key_event_def)

theorem do_key_event_ignores_other_events_witness:
  "do_key_event dev_ok ''at'' 2 cap_zeroed world_init = (cap_zeroed, world_init) \<and>
   do_key_event dev_ok ''a'' 0 cap_zeroed world_init = (cap_zeroed, world_init) \<and>
   do_key_event dev_ok ''q'' 1 cap_zeroed world_init = (cap_zeroed, world_init)"
  using do_key_event_ignores_other_events [of 2 "''at''" dev_ok cap_zeroed world_init]
    do_key_event_ignores_other_events [of 0 "''a''" dev_ok cap_zeroed world_init]
    do_key_event_ignores_other_events [of 1 "''q''" dev_ok cap_zeroed world_init]
  by simp

section \<open>Properties of the capture loop and the session\<close>

text \<open>
  In the statements below a session is in the capture loop (in Streaming) after the passes
  \<open>pre\<close> when \<^verbatim>\<open>capture_and_display\<close> run with \<open>pre\<close> ends as \<open>Running\<close>: setup
  has succeeded, every pass so far has re-queued its buffer, and the loop condition holds.
\<close>

text \<open>
  C5, as amended. In a session that is in the loop, a pass in which no signal arrives and the
  dequeue succeeds goes on by the result of the draw call. If it is positive (Exit) the
  buffer is not re-queued: after the draw call the next calls are those of teardown, and the
  session returns 0. If it is zero (Continue) the buffer just dequeued is re-queued; the
  session stays in the loop when that re-queue returns 0, and when it does not, the loop
  ends, teardown follows and the session returns 0.
\<close>

theorem draw_result_decides_requeue:
  assumes "capture_and_display dev cap opt pre w = (Running, cap1, w1)"
    and "\<not> sigint it" and "0 \<le> dq_ret it"
  shows
    "(0 < draw_ret it \<longrightarrow>
        capture_and_display dev cap opt (pre @ it # rest) w =
          (Returned 0, close_all cap1,
           w1\<lparr>trace := trace w1 @
              [Ioctl (v4l2_fd cap1) (VIDIOC_DQBUF (dq_index it)) (dq_ret it),
               Render (render_buffers cap1 (dq_index it)) (draw_ret it)] @
              teardown_events dev cap1\<rparr>)) \<and>
     (draw_ret it = 0 \<and> rq_ret it = 0 \<longrightarrow>
        capture_and_display dev cap opt (pre @ [it]) w =
          (Running, cap1,
           w1\<lparr>trace := trace w1 @
              [Ioctl (v4l2_fd cap1) (VIDIOC_DQBUF (dq_index it)) (dq_ret it),
               Render (render_buffers cap1 (dq_index it)) 0,
               Ioctl (v4l2_fd cap1) (VIDIOC_QBUF (dq_index it)) 0]\<rparr>)) \<and>
     (draw_ret it = 0 \<and> rq_ret it \<noteq> 0 \<longrightarrow>
        capture_and_display dev cap opt (pre @ [it]) w =
          (Returned 0, close_all cap1,
           w1\<lparr>trace := trace w1 @
              [Ioctl (v4l2_fd cap1) (VIDIOC_DQBUF (dq_index it)) (dq_ret it),
               Render (render_buffers cap1 (dq_index it)) 0,
               Ioctl (v4l2_fd cap1) (VIDIOC_QBUF (dq_index it)) (rq_ret it)] @
              teardown_events dev cap1\<rparr>))"
proof -
  note sig = session_running_signal [OF assms(1)]
  have a: "0 < draw_ret it \<longrightarrow>
        capture_and_display dev cap opt (pre @ it # rest) w =
          (Returned 0, close_all cap1,
           w1\<lparr>trace := trace w1 @
              [Ioctl (v4l2_fd cap1) (VIDIOC_DQBUF (dq_index it)) (dq_ret it),
               Render (render_buffers cap1 (dq_index it)) (draw_ret it)] @
              teardown_events dev cap1\<rparr>)"
    using assms(2,3) by (simp add: session_pass [OF assms(1)] loop_body_def emit_def Let_def)
  have b: "draw_ret it = 0 \<and> rq_ret it = 0 \<longrightarrow>
        capture_and_display dev cap opt (pre @ [it]) w =
          (Running, cap1,
           w1\<lparr>trace := trace w1 @
              [Ioctl (v4l2_fd cap1) (VIDIOC_DQBUF (dq_index it)) (dq_ret it),
               Render (render_buffers cap1 (dq_index it)) 0,
               Ioctl (v4l2_fd cap1) (VIDIOC_QBUF (dq_index it)) 0]\<rparr>)"
    using assms(2,3) sig by (simp add: session_pass [OF assms(1)] loop_body_def emit_def Let_def)
  have c: "draw_ret it = 0 \<and> rq_ret it \<noteq> 0 \<longrightarrow>
        capture_and_display dev cap opt (pre @ [it]) w =
          (Returned 0, close_all cap1,
           w1\<lparr>trace := trace w1 @
              [Ioctl (v4l2_fd cap1) (VIDIOC_DQBUF (dq_index it)) (dq_ret it),
               Render (render_buffers cap1 (dq_index it)) 0,
               Ioctl (v4l2_fd cap1) (VIDIOC_QBUF (dq_index it)) (rq_ret it)] @
              teardown_events dev cap1\<rparr>)"
    using assms(2,3) by (simp add: session_pass [OF assms(1)] loop_body_def emit_def Let_def)
  show ?thesis by (rule conjI [OF a conjI [OF b c]])
qed

theorem draw_result_decides_requeue_witness:
  "fst (capture_and_display dev_ok cap_zeroed opts_default [] world_init) = Running \<and>
   fst (capture_and_display dev_ok cap_zeroed opts_default [it_exit] world_init) = Returned 0 \<and>
   fst (capture_and_display dev_ok cap_zeroed opts_default [it_continue] world_init) = Running \<and>
   fst (capture_and_display dev_ok cap_zeroed opts_default [it_requeue_fails] world_init) = Returned 0"
proof -
  note run = running_dev_ok
  have e: "\<not> sigint it_exit" "0 \<le> dq_ret it_exit" "0 < draw_ret it_exit"
    by (simp_all add: it_exit_def it_continue_def)
  have c: "\<not> sigint it_continue" "0 \<le> dq_ret it_continue" "draw_ret it_continue = 0 \<and> rq_ret it_continue = 0"
    by (simp_all add: it_continue_def)
  have f: "\<not> sigint it_requeue_fails" "0 \<le> dq_ret it_requeue_fails"
    "draw_ret it_requeue_fails = 0 \<and> rq_ret it_requeue_fails \<noteq> 0"
    by (simp_all add: it_requeue_fails_def it_continue_def)
  note te = draw_result_decides_requeue [OF run e(1,2), of "[]", unfolded append_Nil]
  note tc = draw_result_decides_requeue [OF run c(1,2), of "[]", unfolded append_Nil]
  note tf = draw_result_decides_requeue [OF run f(1,2), of "[]", unfolded append_Nil]
  from te e(3) obtain c1 w1 where
    "capture_and_display dev_ok cap_zeroed opts_default [it_exit] world_init = (Returned 0, c1, w1)"
    by blast
  then have 1: "fst (capture_and_display dev_ok cap_zeroed opts_default [it_exit] world_init) = Returned 0"
    by simp
  from tc c(3) obtain c2 w2 where
    "capture_and_display dev_ok cap_zeroed opts_default [it_continue] world_init = (Running, c2, w2)"
    by blast
  then have 2: "fst (capture_and_display dev_ok cap_zeroed opts_default [it_continue] world_init) = Running"
    by simp
  from tf f(3) obtain c3 w3 where
    "capture_and_display dev_ok cap_zeroed opts_default [it_requeue_fails] world_init = (Returned 0, c3, w3)"
    by blast
  then have 3: "fst (capture_and_display dev_ok cap_zeroed opts_default [it_requeue_fails] world_init) = Returned 0"
    by simp
  have 0: "fst (capture_and_display dev_ok cap_zeroed opts_default [] world_init) = Running"
    by (simp only: run fst_conv)
  from 0 1 2 3 show ?thesis by (intro conjI)
qed

text \<open>
  C5 as stated fails: the draw call returns Continue, the re-queue is refused, and the
  session is no longer in the loop; a further scripted pass is never dequeued.
\<close>

theorem requeue_failure_ends_streaming:
  "draw_ret it_requeue_fails = 0 \<and>
   fst (capture_and_display dev_ok cap_zeroed opts_default [] world_init) = Running \<and>
   fst (capture_and_display dev_ok cap_zeroed opts_default [it_requeue_fails] world_init) = Returned 0 \<and>
   dqbuf_count (trace (snd (snd
     (capture_and_display dev_ok cap_zeroed opts_default [it_requeue_fails, it_continue] world_init)))) = 1"
proof -
  note run = running_dev_ok
  have f: "\<not> sigint it_requeue_fails" "\<not> dq_ret it_requeue_fails < 0"
    "draw_ret it_requeue_fails = 0" "rq_ret it_requeue_fails \<noteq> 0"
    by (simp_all add: it_requeue_fails_def it_continue_def)
  have c: "\<not> sigint it_continue"
    by (simp add: it_continue_def)
  have 1: "fst (capture_and_display dev_ok cap_zeroed opts_default [it_requeue_fails] world_init) = Returned 0"
    using f session_pass [OF run, of it_requeue_fails "[]"]
    by (simp add: loop_body_def emit_def Let_def)
  have 2: "dqbuf_count (trace (snd (snd
     (capture_and_display dev_ok cap_zeroed opts_default [it_requeue_fails, it_continue] world_init)))) = 1"
    using f c session_pass [OF run, of it_requeue_fails "[it_continue]"]
    by (simp add: loop_body_def emit_def Let_def)
  from run 1 2 f show ?thesis by simp
qed

text \<open>
  C6. The stop flag is read at the top of every pass, before the dequeue. If the signal
  arrives before a pass of a session that is in the loop, that pass dequeues nothing: the
  loop ends, the calls that follow are those of teardown, and the session returns 0. The
  handler sets the flag and does nothing else: it makes no call and has no access to the
  capture context.
\<close>

theorem stop_flag_polled_before_dequeue:
  assumes "capture_and_display dev cap opt pre w = (Running, cap1, w1)" and "sigint it"
  shows "capture_and_display dev cap opt (pre @ it # rest) w =
           (Returned 0, close_all cap1,
            w1\<lparr>signal_quit := 1, trace := trace w1 @ teardown_events dev cap1\<rparr>) \<and>
         dqbuf_count (trace (snd (snd (capture_and_display dev cap opt (pre @ it # rest) w)))) =
           dqbuf_count (trace w1) \<and>
         signal_exit s w0 = w0\<lparr>signal_quit := 1\<rparr> \<and> trace (signal_exit s w0) = trace w0"
  using assms(2) by (simp add: session_pass [OF assms(1)] signal_exit_def)

theorem stop_flag_polled_before_dequeue_witness:
  "sigint it_sigint \<and>
   fst (capture_and_display dev_ok cap_zeroed opts_default [it_sigint, it_continue] world_init) = Returned 0 \<and>
   dqbuf_count (trace (snd (snd
     (capture_and_display dev_ok cap_zeroed opts_default [it_sigint, it_continue] world_init)))) = 0 \<and>
   ends_with_teardown (trace (snd (snd
     (capture_and_display dev_ok cap_zeroed opts_default [it_sigint, it_continue] world_init))))"
proof -
  have s: "sigint it_sigint" by (simp add: it_sigint_def it_continue_def)
  note t = stop_flag_polled_before_dequeue [OF running_dev_ok s, of "[it_continue]", unfolded append_Nil]
  from t have 1: "capture_and_display dev_ok cap_zeroed opts_default [it_sigint, it_continue] world_init =
      (Returned 0, close_all (session_cap dev_ok opts_default cap_zeroed),
       (world_init\<lparr>trace := trace world_init @ session_events dev_ok opts_default cap_zeroed\<rparr>)
         \<lparr>signal_quit := 1,
          trace := trace (world_init\<lparr>trace := trace world_init @ session_events dev_ok opts_default cap_zeroed\<rparr>) @
            teardown_events dev_ok (session_cap dev_ok opts_default cap_zeroed)\<rparr>)"
    by (rule conjunct1)
  from t have 2: "dqbuf_count (trace (snd (snd
     (capture_and_display dev_ok cap_zeroed opts_default [it_sigint, it_continue] world_init)))) =
     dqbuf_count (trace (world_init\<lparr>trace := trace world_init @ session_events dev_ok opts_default cap_zeroed\<rparr>))"
    by (rule conjunct1 [OF conjunct2])
  have a: "fst (capture_and_display dev_ok cap_zeroed opts_default [it_sigint, it_continue] world_init) = Returned 0"
    by (simp only: 1 fst_conv)
  have b: "dqbuf_count (trace (snd (snd
     (capture_and_display dev_ok cap_zeroed opts_default [it_sigint, it_continue] world_init)))) = 0"
    by (simp only: 2) simp
  have c: "ends_with_teardown (trace (snd (snd
     (capture_and_display dev_ok cap_zeroed opts_default [it_sigint, it_continue] world_init))))"
    by (simp only: 1) (simp add: ends_with_teardown_append del: append_assoc add: append_assoc [symmetric])
  from s a b c show ?thesis by (intro conjI)
qed

text \<open>
  C9. Single consumer. If the application holds no buffer when
  \<^verbatim>\<open>capture_display_yuv\<close> is entered, then at every point of the trace it leaves,
  whatever the device and the renderer do and however long the loop runs, the application
  holds at most one buffer: no buffer is dequeued while another is held.
\<close>

theorem single_consumer_in_loop:
  assumes "single_consumer [] (trace w)" and "owned (trace w) = []"
  shows "single_consumer [] (trace (snd (capture_display_yuv dev cap script w)))"
proof -
  let ?w1 = "emit (Display_setup (render_buffers cap 0) (dev_display_setup dev)) w"
  have 1: "single_consumer [] (trace ?w1)"
    using assms by (simp add: emit_def single_consumer_append owned_def)
  have 2: "owned (trace ?w1) = []"
    using assms by (simp add: emit_def owned_def)
  have "single_consumer [] (trace (snd (capture_loop cap 0 script ?w1)))"
    using 1 2 by (intro capture_loop_single_consumer) simp_all
  with 1 show ?thesis
    by (cases "dev_display_setup dev = 0") (simp_all add: capture_display_yuv_def Let_def)
qed

theorem single_consumer_in_loop_witness:
  "single_consumer [] (trace world_init) \<and> owned (trace world_init) = [] \<and>
   single_consumer []
     (trace (snd (capture_display_yuv dev_ok cap_zeroed [it_continue, it_requeue_fails, it_continue] world_init)))"
  using single_consumer_in_loop [of world_init dev_ok cap_zeroed "[it_continue, it_requeue_fails, it_continue]"]
  by (simp add: owned_def)




section \<open>Properties of the buffer pool\<close>

text \<open>
  C2. The claim asks that \<^verbatim>\<open>unmap_buffers\<close> can be called twice without unmapping a
  plane twice. The descriptor guard works: the first call sets each descriptor it closes to
  \<open>-1\<close>, and the second call closes nothing. The address guard does not: \<^verbatim>\<open>munmap\<close>
  leaves the stored address as it is, so the second call passes the guard again and unmaps
  every plane the first call unmapped.
\<close>

theorem second_unmap_unmaps_again:
  assumes "wf_cap cap" and "nat (num_buf cap) \<le> VIDEO_MAX_FRAME" and "nat (num_planes cap) \<le> VIDEO_MAX_PLANES"
  shows "unmap_buffers dev (cap_of (unmap_buffers dev cap w)) (world_of (unmap_buffers dev cap w)) =
     (fst (dev_reqbufs dev 0), close_all cap,
      w\<lparr>trace := trace w @
         (concat (map (\<lambda>i. concat (map (release_events cap i) [0..<nat (num_planes cap)]))
            [0..<nat (num_buf cap)]) @
          [Ioctl (v4l2_fd cap) (VIDIOC_REQBUFS 0) (fst (dev_reqbufs dev 0))]) @
         (concat (map (\<lambda>i. concat (map (munmap_events cap i) [0..<nat (num_planes cap)]))
            [0..<nat (num_buf cap)]) @
          [Ioctl (v4l2_fd cap) (VIDIOC_REQBUFS 0) (fst (dev_reqbufs dev 0))])\<rparr>)"
proof -
  let ?c = "close_all cap"
  have neg: "buf_dma_fd ?c i p < 0" if "i < nat (num_buf cap)" "p < nat (num_planes cap)" for i p
    using assms that by (rule close_all_closed)
  have id: "fold (\<lambda>i c. fold (close_plane i) [0..<nat (num_planes c)] c) [0..<nat (num_buf cap)] ?c = ?c"
    using neg by (intro close_all_neg_id) simp
  have ev: "map (\<lambda>i. concat (map (release_events ?c i) [0..<nat (num_planes cap)])) [0..<nat (num_buf cap)] =
      map (\<lambda>i. concat (map (munmap_events cap i) [0..<nat (num_planes cap)])) [0..<nat (num_buf cap)]"
  proof (intro map_cong refl arg_cong [where f = concat])
    fix i p
    assume "i \<in> set [0..<nat (num_buf cap)]" "p \<in> set [0..<nat (num_planes cap)]"
    then have "release_events ?c i p = munmap_events ?c i p"
      using neg by (intro release_events_neg) simp
    also have "\<dots> = munmap_events cap i p"
      by (intro munmap_events_cong) simp_all
    finally show "release_events ?c i p = munmap_events cap i p" .
  qed
  show ?thesis
    by (simp add: unmap_buffers_eq cap_of_def world_of_def id ev)
qed

theorem second_unmap_unmaps_again_witness:
  "trace (world_of (unmap_buffers dev_ok
      (cap_of (unmap_buffers dev_ok (session_cap dev_ok opts_default cap_zeroed) world_init))
      (world_of (unmap_buffers dev_ok (session_cap dev_ok opts_default cap_zeroed) world_init)))) =
    [Munmap 65536 4096, Munmap 69632 4096, Munmap 73728 4096, Munmap 77824 4096,
     Munmap 81920 4096, Munmap 86016 4096, Munmap 90112 4096, Munmap 94208 4096,
     Ioctl 3 (VIDIOC_REQBUFS 0) 0,
     Munmap 65536 4096, Munmap 69632 4096, Munmap 73728 4096, Munmap 77824 4096,
     Munmap 81920 4096, Munmap 86016 4096, Munmap 90112 4096, Munmap 94208 4096,
     Ioctl 3 (VIDIOC_REQBUFS 0) 0]"
proof -
  let ?cap = "session_cap dev_ok opts_default cap_zeroed"
  have 1: "wf_cap ?cap" by (simp add: wf_cap_zeroed)
  have 2: "nat (num_buf ?cap) \<le> VIDEO_MAX_FRAME" by (simp add: VIDEO_MAX_FRAME_def)
  have 3: "nat (num_planes ?cap) \<le> VIDEO_MAX_PLANES" by (simp add: VIDEO_MAX_PLANES_def)
  have o: "dev_open dev_ok (dev_name opts_default) = 3" "fst (dev_reqbufs dev_ok 0) = 0"
    by (simp_all add: dev_ok_def opts_default_def)
  note eq = second_unmap_unmaps_again [OF 1 2 3, of dev_ok world_init]
  show ?thesis
    by (simp only: eq)
      (simp add: world_of_def upt_4 upt_2 release_events_def munmap_events_def session_cap_dev_ok_views o
        MAP_FAILED_def)
qed

text \<open>
  The program makes the two calls itself. With four buffers granted and \<^verbatim>\<open>mmap\<close>
  failing on the first plane of buffer 2, \<^verbatim>\<open>capture_setup\<close> runs
  \<^verbatim>\<open>capture_shutdown\<close> at its \<^verbatim>\<open>cleanup\<close> label and returns the error, and
  \<^verbatim>\<open>capture_and_display\<close> runs \<^verbatim>\<open>capture_shutdown\<close> again. Each time the four
  planes of buffers 0 and 1 are unmapped and the planes of buffers 2 and 3, which hold the
  failed address or no address, are skipped.
\<close>

lemma mapping_failure_session_unmaps_twice:
  "capture_and_display dev_mmap_fails_buf2 cap_zeroed opts_default script world_init =
     (Returned (- 12),
      cap_mmap_failed ((set_test_state 0 (set_focus_state AUTO_FOCUS_ENABLED cap_zeroed))
        \<lparr>v4l2_fd := 3, v4l2_subdev_fd := 4\<rparr>),
      world_init\<lparr>trace :=
        [Open ''/dev/video3'' 3, Ioctl 3 VIDIOC_QUERYCAP 0, Open ''/dev/v4l-subdev10'' 4,
         Ioctl 3 VIDIOC_S_FMT 0, Ioctl 3 (VIDIOC_REQBUFS 4) 0,
         Ioctl 3 (VIDIOC_QUERYBUF 0 4) 0, Mmap 4096 0 65536, Mmap 4096 4096 69632,
         Ioctl 3 (VIDIOC_QUERYBUF 1 4) 0, Mmap 4096 8192 73728, Mmap 4096 12288 77824,
         Ioctl 3 (VIDIOC_QUERYBUF 2 4) 0, Mmap 4096 16384 MAP_FAILED,
         Ioctl 3 VIDIOC_STREAMOFF 0,
         Munmap 65536 4096, Munmap 69632 4096, Munmap 73728 4096, Munmap 77824 4096,
         Ioctl 3 (VIDIOC_REQBUFS 0) 0,
         Ioctl 3 VIDIOC_STREAMOFF 0,
         Munmap 65536 4096, Munmap 69632 4096, Munmap 73728 4096, Munmap 77824 4096,
         Ioctl 3 (VIDIOC_REQBUFS 0) 0]\<rparr>)"
proof -
  let ?cap3 = "(set_test_state 0 (set_focus_state AUTO_FOCUS_ENABLED cap_zeroed))
        \<lparr>v4l2_fd := 3, v4l2_subdev_fd := 4\<rparr>"
  have wf: "wf_cap ?cap3" by (simp add: wf_cap_zeroed)
  have z: "\<forall>i < 4. \<forall>p < 2. buf_addr ?cap3 i p = 0"
    by (simp add: set_test_state_def set_focus_state_def getters_record_update cap_zeroed_views
        VIDEO_MAX_FRAME_def VIDEO_MAX_PLANES_def)
  have cl: "fold (\<lambda>i c. fold (close_plane i) [0..<nat (num_planes c)] c) [0..<4] (cap_mmap_failed ?cap3) =
      cap_mmap_failed ?cap3"
    using close_all_mmap_failed [OF wf] by simp
  have gd: "get_device dev_mmap_fails_buf2 ''/dev/video3'' w =
     (3, w\<lparr>trace := trace w @ [Open ''/dev/video3'' 3, Ioctl 3 VIDIOC_QUERYCAP 0]\<rparr>)" for w
    by (simp add: get_device_def Let_def emit_def dev_mmap_fails_buf2_simps dev_ok_def
        V4L2_CAP_VIDEO_CAPTURE_MPLANE_def V4L2_CAP_STREAMING_def)
  have gs: "get_subdevice dev_mmap_fails_buf2 ''/dev/v4l-subdev10'' w =
     (4, w\<lparr>trace := trace w @ [Open ''/dev/v4l-subdev10'' 4]\<rparr>)" for w
    by (simp add: get_subdevice_def Let_def emit_def dev_mmap_fails_buf2_simps dev_ok_def)
  have ev: "map_buffer_events dev_mmap_fails_buf2 False 3 4 2 0 =
      [Ioctl 3 (VIDIOC_QUERYBUF 0 4) 0, Mmap 4096 0 65536, Mmap 4096 4096 69632]"
    "map_buffer_events dev_mmap_fails_buf2 False 3 4 2 (Suc 0) =
      [Ioctl 3 (VIDIOC_QUERYBUF 1 4) 0, Mmap 4096 8192 73728, Mmap 4096 12288 77824]"
    by (simp_all add: map_buffer_events_def map_plane_events_def buffer_planes_def plane_map_addr_def
        upt_2 dev_mmap_fails_buf2_simps)
  have names: "dev_name opts_default = ''/dev/video3''" "subdev_name opts_default = ''/dev/v4l-subdev10''"
    by (simp_all add: opts_default_def)
  note cs = capture_setup_mmap_fails [OF wf]
  note td = teardown_events_mmap_failed [OF wf z]
  show ?thesis
    by (simp add: capture_and_display_def Let_def names gd gs cs td ev cl capture_shutdown_eq)
qed



end
